theory Spec2Isabelle
  imports Complex_Main
begin

section \<open>Wheels of Fortune sketch: dispersal, restoration and the frame loop\<close>

text \<open>
  The sketch keeps three global arrays that matter here: \<open>wheels\<close>, \<open>dandelionParticles\<close> and
  \<open>blownAwayHistory\<close>. JavaScript numbers are modelled as exact reals. The wheels array is
  filled once by \<open>initializeArtwork\<close> and never resized afterwards, so a reference to a wheel
  object is modelled as its index in \<open>wheels\<close>; the history therefore is a list of index lists.
  Connectors and all drawing calls have no effect on the three arrays and are left out.
\<close>

subsection \<open>Library functions of p5.js used by the sketch\<close>

definition p5_dist :: "real \<Rightarrow> real \<Rightarrow> real \<Rightarrow> real \<Rightarrow> real" where
  "p5_dist x1 y1 x2 y2 = sqrt ((x2 - x1)\<^sup>2 + (y2 - y1)\<^sup>2)"

definition p5_lerp :: "real \<Rightarrow> real \<Rightarrow> real \<Rightarrow> real" where
  "p5_lerp start stop amt = amt * (stop - start) + start"

definition p5_map :: "real \<Rightarrow> real \<Rightarrow> real \<Rightarrow> real \<Rightarrow> real \<Rightarrow> real" where
  "p5_map n start1 stop1 start2 stop2 = (n - start1) / (stop1 - start1) * (stop2 - start2) + start2"

text \<open>\<open>random(lo, hi)\<close> scales a uniform draw \<open>u\<close> from \<open>[0, 1)\<close>; p5 swaps the bounds when
  they are given in descending order. \<open>random(hi)\<close> is \<open>u * hi\<close>. Over the reals the result
  is strictly below the upper bound; in the program's double arithmetic the largest draws
  round to the upper bound itself, so ranges of random quantities are stated closed.\<close>

definition p5_random :: "real \<Rightarrow> real \<Rightarrow> real \<Rightarrow> real" where
  "p5_random u lo hi = (if lo > hi then u * (lo - hi) + hi else u * (hi - lo) + lo)"

definition TWO_PI :: real where
  "TWO_PI = 2 * pi"

definition atan2 :: "real \<Rightarrow> real \<Rightarrow> real" where
  "atan2 b a =
     (if 0 < a then arctan (b / a)
      else if a < 0 \<and> 0 \<le> b then arctan (b / a) + pi
      else if a < 0 \<and> b < 0 then arctan (b / a) - pi
      else if 0 < b then pi / 2
      else if b < 0 then - (pi / 2)
      else 0)"

text \<open>Reading an array past its end gives \<open>undefined\<close> in JavaScript: \<open>None\<close> here.\<close>

definition colorAt :: "string list \<Rightarrow> nat \<Rightarrow> string option" where
  "colorAt cs i = (if i < length cs then Some (cs ! i) else None)"

text \<open>\<open>xs.splice(i, 1)\<close> removes the element at index \<open>i\<close>.\<close>

definition splice1 :: "nat \<Rightarrow> 'a list \<Rightarrow> 'a list" where
  "splice1 i xs = take i xs @ drop (Suc i) xs"

subsection \<open>Class Wheel\<close>

record wheel =
  wheelX :: real
  wheelY :: real
  radius :: real
  colors :: "string list"
  stemAngle :: real
  isBlownAway :: bool
  innerAlpha :: real
  targetInnerAlpha :: real
  fadeSpeed :: real

text \<open>The constructor; \<open>u\<close> is the uniform draw behind \<open>random(TWO_PI)\<close>.\<close>

definition Wheel :: "real \<Rightarrow> real \<Rightarrow> real \<Rightarrow> string list \<Rightarrow> real \<Rightarrow> wheel" where
  "Wheel x y r palette u =
     \<lparr>wheelX = x, wheelY = y, radius = r, colors = palette, stemAngle = u * TWO_PI,
      isBlownAway = False, innerAlpha = 0, targetInnerAlpha = 255, fadeSpeed = 5\<rparr>"

definition updateAlpha :: "wheel \<Rightarrow> wheel" where
  "updateAlpha w =
     (if isBlownAway w then w\<lparr>innerAlpha := 0\<rparr>
      else if innerAlpha w < targetInnerAlpha w
           then w\<lparr>innerAlpha := min (innerAlpha w + fadeSpeed w) (targetInnerAlpha w)\<rparr>
           else w)"

definition contains :: "wheel \<Rightarrow> real \<Rightarrow> real \<Rightarrow> bool" where
  "contains w px py = (p5_dist px py (wheelX w) (wheelY w) < radius w)"

subsection \<open>Class DandelionParticle\<close>

record particle =
  partX :: real
  partY :: real
  ptype :: string
  color :: "string option"
  psize :: real
  alpha :: real
  originalX :: real
  originalY :: real
  targetX :: real
  targetY :: real
  velX :: real
  velY :: real
  rotation :: real
  rotationSpeed :: real
  windX :: real
  windY :: real
  isReturning :: bool
  returnSpeed :: real

text \<open>The constructor makes five calls of \<open>random\<close>, in this order: the direction of the
  velocity, its length, the rotation speed, and the two wind components. The uniform draws
  behind them are \<open>rnd c\<close>, ..., \<open>rnd (c + 4)\<close>.\<close>

definition DandelionParticle ::
  "real \<Rightarrow> real \<Rightarrow> string \<Rightarrow> string option \<Rightarrow> real \<Rightarrow> real \<Rightarrow> real \<Rightarrow> real \<Rightarrow> (nat \<Rightarrow> real) \<Rightarrow> nat \<Rightarrow> particle" where
  "DandelionParticle x y ty col sz tx ty' initialAngle rnd c =
     \<lparr>partX = x, partY = y, ptype = ty, color = col, psize = sz, alpha = 255,
      originalX = x, originalY = y, targetX = tx, targetY = ty',
      velX = cos (p5_random (rnd c) (pi + pi / 4) (pi + pi / 2)) * p5_random (rnd (c + 1)) 1 3,
      velY = sin (p5_random (rnd c) (pi + pi / 4) (pi + pi / 2)) * p5_random (rnd (c + 1)) 1 3,
      rotation = initialAngle,
      rotationSpeed = p5_random (rnd (c + 2)) (- 0.05) 0.05,
      windX = p5_random (rnd (c + 3)) (- 0.05) (- 0.2),
      windY = p5_random (rnd (c + 4)) 0.05 0.2,
      isReturning = False, returnSpeed = 0.05\<rparr>"

definition update :: "particle \<Rightarrow> particle" where
  "update p =
     (if isReturning p then
        p\<lparr>partX := p5_lerp (partX p) (targetX p) (returnSpeed p),
          partY := p5_lerp (partY p) (targetY p) (returnSpeed p),
          alpha := p5_lerp (alpha p) 0 (returnSpeed p * 2),
          psize := p5_lerp (psize p) (if ptype p = ''spoke'' then psize p / 5 else psize p)
                     (returnSpeed p * 2),
          rotationSpeed := p5_lerp (rotationSpeed p) 0 0.05\<rparr>
      else
        p\<lparr>partX := partX p + velX p,
          partY := partY p + velY p,
          velX := velX p + windX p,
          velY := velY p + windY p,
          rotation := rotation p + rotationSpeed p,
          alpha := alpha p - 2,
          psize := psize p * 0.99\<rparr>)"

subsection \<open>The global state\<close>

record state =
  wheels :: "wheel list"
  dandelionParticles :: "particle list"
  blownAwayHistory :: "nat list list"

text \<open>\<open>initializeArtwork\<close> empties the arrays and pushes the wheels its random packing
  loop manages to place. The outcome of that loop is a parameter: the constructor arguments
  of the wheels pushed, in order (position, radius, palette, and the draw for the stem).\<close>

type_synonym placement = "real \<times> real \<times> real \<times> string list \<times> real"

definition initializeArtwork :: "placement list \<Rightarrow> state" where
  "initializeArtwork placed =
     \<lparr>wheels = map (\<lambda>(x, y, r, palette, u). Wheel x y r palette u) placed,
      dandelionParticles = [],
      blownAwayHistory = []\<rparr>"

subsection \<open>The frame loop: draw\<close>

text \<open>The particle loop of \<open>draw\<close> runs the index down from \<open>length - 1\<close> to \<open>0\<close>, updates
  the particle in place and removes it with \<open>splice\<close> under either of the two tests.
  The first argument is the number of indices still to visit.\<close>

fun draw_particles_loop :: "nat \<Rightarrow> particle list \<Rightarrow> particle list" where
  "draw_particles_loop 0 ps = ps"
| "draw_particles_loop (Suc i) ps =
     (let p = update (ps ! i);
          ps1 = ps[i := p];
          ps2 = (if alpha p \<le> 0 \<and> \<not> isReturning p then splice1 i ps1 else ps1);
          ps3 = (if isReturning p \<and> p5_dist (partX p) (partY p) (targetX p) (targetY p) < 1
                    \<and> alpha p \<le> 0
                 then splice1 i ps2 else ps2)
      in draw_particles_loop i ps3)"

definition draw :: "state \<Rightarrow> state" where
  "draw s =
     s\<lparr>wheels := map updateAlpha (wheels s),
       dandelionParticles :=
         draw_particles_loop (length (dandelionParticles s)) (dandelionParticles s)\<rparr>"

subsection \<open>Dispersal: mousePressed\<close>

definition spokeCount :: nat where
  "spokeCount = 24"

definition dotCount :: nat where
  "dotCount = 40"

definition spoke_particle :: "wheel \<Rightarrow> (nat \<Rightarrow> real) \<Rightarrow> nat \<Rightarrow> nat \<Rightarrow> particle" where
  "spoke_particle w rnd c j =
     (let outerRadius = radius w * 0.8;
          spokeColor = colorAt (colors w) 3;
          spokeSize = radius w * 0.03;
          angle = p5_map (real j) 0 (real spokeCount) 0 TWO_PI;
          startX = wheelX w + cos angle * outerRadius;
          startY = wheelY w + sin angle * outerRadius;
          targetX = wheelX w + cos angle * outerRadius;
          targetY = wheelY w + sin angle * outerRadius
      in DandelionParticle startX startY ''spoke'' spokeColor (spokeSize * 5) targetX targetY
           angle rnd c)"

definition dot_particle :: "wheel \<Rightarrow> (nat \<Rightarrow> real) \<Rightarrow> nat \<Rightarrow> nat \<Rightarrow> particle" where
  "dot_particle w rnd c j =
     (let dotRadius = radius w * 0.9;
          dotColor = colorAt (colors w) 1;
          dotSize = radius w * 0.08;
          angle = p5_map (real j) 0 (real dotCount) 0 TWO_PI;
          dx = wheelX w + cos angle * dotRadius;
          dy = wheelY w + sin angle * dotRadius;
          targetX = wheelX w + cos angle * dotRadius;
          targetY = wheelY w + sin angle * dotRadius
      in DandelionParticle dx dy ''outerDot'' dotColor dotSize targetX targetY 0 rnd c)"

text \<open>The two inner loops push one particle per index; each constructor call consumes five
  draws, so the \<open>j\<close>-th particle of a loop that starts at draw \<open>c\<close> uses the draws from
  \<open>c + 5 * j\<close> on.\<close>

definition spoke_particles :: "wheel \<Rightarrow> (nat \<Rightarrow> real) \<Rightarrow> nat \<Rightarrow> particle list" where
  "spoke_particles w rnd c = map (\<lambda>j. spoke_particle w rnd (c + 5 * j) j) [0..<spokeCount]"

definition dot_particles :: "wheel \<Rightarrow> (nat \<Rightarrow> real) \<Rightarrow> nat \<Rightarrow> particle list" where
  "dot_particles w rnd c = map (\<lambda>j. dot_particle w rnd (c + 5 * j) j) [0..<dotCount]"

text \<open>The body of \<open>for (const w of wheelsToBlow)\<close> for the wheel with index \<open>k\<close>; the second
  component counts the draws consumed so far.\<close>

definition blow_one :: "(nat \<Rightarrow> real) \<Rightarrow> nat \<Rightarrow> state \<times> nat \<Rightarrow> state \<times> nat" where
  "blow_one rnd k sc =
     (let s = fst sc; c = snd sc;
          w = (wheels s ! k)\<lparr>isBlownAway := True, innerAlpha := 0\<rparr>
      in (s\<lparr>wheels := (wheels s)[k := w],
            dandelionParticles :=
              dandelionParticles s @ spoke_particles w rnd c
                @ dot_particles w rnd (c + 5 * spokeCount)\<rparr>,
          c + 5 * (spokeCount + dotCount)))"

definition wheelsToBlow :: "wheel list \<Rightarrow> string option \<Rightarrow> nat list" where
  "wheelsToBlow ws clickedWheelBaseColor =
     filter (\<lambda>k. colorAt (colors (ws ! k)) 0 = clickedWheelBaseColor \<and> \<not> isBlownAway (ws ! k))
       [0..<length ws]"

text \<open>The body of the \<open>if\<close> of \<open>mousePressed\<close>, for the clicked wheel with index \<open>i\<close>.\<close>

definition blow_from :: "state \<Rightarrow> nat \<Rightarrow> (nat \<Rightarrow> real) \<Rightarrow> state" where
  "blow_from s i rnd =
     (let clickedWheelBaseColor = colorAt (colors (wheels s ! i)) 0;
          wtb = wheelsToBlow (wheels s) clickedWheelBaseColor
      in if length wtb > 0
         then fst (fold (blow_one rnd) wtb
                     (s\<lparr>blownAwayHistory := blownAwayHistory s @ [map (\<lambda>w. w) wtb]\<rparr>, 0))
         else s)"

text \<open>The outer loop runs the index down and stops at the first wheel that contains the
  mouse position and is not blown away. The first argument is the number of indices still
  to visit.\<close>

fun mousePressed_loop :: "nat \<Rightarrow> state \<Rightarrow> real \<Rightarrow> real \<Rightarrow> (nat \<Rightarrow> real) \<Rightarrow> state" where
  "mousePressed_loop 0 s mouseX mouseY rnd = s"
| "mousePressed_loop (Suc i) s mouseX mouseY rnd =
     (let wheel = wheels s ! i
      in if contains wheel mouseX mouseY \<and> \<not> isBlownAway wheel
         then blow_from s i rnd
         else mousePressed_loop i s mouseX mouseY rnd)"

definition mousePressed :: "state \<Rightarrow> real \<Rightarrow> real \<Rightarrow> (nat \<Rightarrow> real) \<Rightarrow> state" where
  "mousePressed s mouseX mouseY rnd = mousePressed_loop (length (wheels s)) s mouseX mouseY rnd"

subsection \<open>Restoration: keyPressed\<close>

definition particleMatches :: "wheel \<Rightarrow> particle \<Rightarrow> bool" where
  "particleMatches w p =
     ((ptype p = ''spoke'' \<and>
       p5_dist (targetX p) (targetY p)
         (wheelX w + cos (rotation p) * radius w * 0.8)
         (wheelY w + sin (rotation p) * radius w * 0.8) < 10)
      \<or>
      (ptype p = ''outerDot'' \<and>
       p5_dist (targetX p) (targetY p)
         (wheelX w + cos (atan2 (targetY p - wheelY w) (targetX p - wheelX w)) * radius w * 0.9)
         (wheelY w + sin (atan2 (targetY p - wheelY w) (targetX p - wheelX w)) * radius w * 0.9)
         < 10))"

definition startReturn :: "particle \<Rightarrow> particle" where
  "startReturn p = p\<lparr>isReturning := True, originalX := partX p, originalY := partY p\<rparr>"

text \<open>The body of \<open>for (const w of wheelsToRestore)\<close> for the wheel with index \<open>k\<close>:
  \<open>filter\<close> collects (references to) the matching particles, here their indices, and the
  inner loop then writes to each of them.\<close>

definition restore_one :: "nat \<Rightarrow> state \<Rightarrow> state" where
  "restore_one k s =
     (let ws = (wheels s)[k := (wheels s ! k)\<lparr>isBlownAway := False, innerAlpha := 0\<rparr>];
          w = ws ! k;
          ps = dandelionParticles s;
          particlesToReturn = filter (\<lambda>i. particleMatches w (ps ! i)) [0..<length ps]
      in s\<lparr>wheels := ws,
           dandelionParticles :=
             fold (\<lambda>i qs. qs[i := startReturn (qs ! i)]) particlesToReturn ps\<rparr>)"

definition keyPressed :: "state \<Rightarrow> int \<Rightarrow> state" where
  "keyPressed s keyCode =
     (if keyCode = 32 then
        (if length (blownAwayHistory s) > 0 then
           (let wheelsToRestore = last (blownAwayHistory s);
                s1 = s\<lparr>blownAwayHistory := butlast (blownAwayHistory s)\<rparr>
            in fold restore_one wheelsToRestore s1)
         else s)
      else s)"

subsection \<open>Events and runs\<close>

definition windowResized :: "placement list \<Rightarrow> state" where
  "windowResized placed = initializeArtwork placed"

datatype event =
    Draw
  | MousePressed real real "nat \<Rightarrow> real"
  | KeyPressed int
  | WindowResized "placement list"

fun step :: "event \<Rightarrow> state \<Rightarrow> state" where
  "step Draw s = draw s"
| "step (MousePressed mouseX mouseY rnd) s = mousePressed s mouseX mouseY rnd"
| "step (KeyPressed keyCode) s = keyPressed s keyCode"
| "step (WindowResized placed) s = windowResized placed"

text \<open>The state after \<open>setup\<close> with the given placement and then the events in order.\<close>

definition run :: "placement list \<Rightarrow> event list \<Rightarrow> state" where
  "run placed evs = fold step evs (initializeArtwork placed)"

subsection \<open>Auxiliary notions for the proofs\<close>

text \<open>The two removal tests of the particle loop of \<open>draw\<close>, taken together.\<close>

definition reaped :: "particle \<Rightarrow> bool" where
  "reaped p =
     ((alpha p \<le> 0 \<and> \<not> isReturning p) \<or>
      (isReturning p \<and> p5_dist (partX p) (partY p) (targetX p) (targetY p) < 1 \<and> alpha p \<le> 0))"

text \<open>The two assignments \<open>mousePressed\<close> makes to a wheel, and the two \<open>keyPressed\<close> makes.\<close>

definition blowAway :: "wheel \<Rightarrow> wheel" where
  "blowAway w = w\<lparr>isBlownAway := True, innerAlpha := 0\<rparr>"

definition restoreWheel :: "wheel \<Rightarrow> wheel" where
  "restoreWheel w = w\<lparr>isBlownAway := False, innerAlpha := 0\<rparr>"

text \<open>Applying \<open>f\<close> in place to the wheels with the given indices, one after the other.\<close>

definition mark :: "(wheel \<Rightarrow> wheel) \<Rightarrow> nat list \<Rightarrow> wheel list \<Rightarrow> wheel list" where
  "mark f ks ws = fold (\<lambda>k vs. vs[k := f (vs ! k)]) ks ws"

text \<open>What holds of every wheel between two event handlers.\<close>

definition wheel_ok :: "wheel \<Rightarrow> bool" where
  "wheel_ok w =
     (0 \<le> innerAlpha w \<and> innerAlpha w \<le> 255 \<and> (isBlownAway w \<longrightarrow> innerAlpha w = 0)
      \<and> targetInnerAlpha w = 255 \<and> fadeSpeed w = 5)"

text \<open>What holds of the history between two event handlers: the batches hold indices of
  wheels that are blown away, and no index occurs twice in the whole history.\<close>

definition history_ok :: "state \<Rightarrow> bool" where
  "history_ok s =
     ((\<forall>b \<in> set (blownAwayHistory s). \<forall>k \<in> set b.
          k < length (wheels s) \<and> isBlownAway (wheels s ! k))
      \<and> distinct (concat (blownAwayHistory s)))"

text \<open>What holds of every live particle between two event handlers.\<close>

definition particle_ok :: "particle \<Rightarrow> bool" where
  "particle_ok p = (0 < alpha p \<and> alpha p \<le> 255 \<and> returnSpeed p = 0.05)"

text \<open>The state inside \<open>mousePressed\<close> between its statements: right after the \<open>push\<close> onto
  the history for the clicked wheel with index \<open>i\<close>, before the loop over \<open>wheelsToBlow\<close>
  has set any flag.\<close>

definition pushed :: "state \<Rightarrow> nat \<Rightarrow> state" where
  "pushed s i =
     s\<lparr>blownAwayHistory := blownAwayHistory s
         @ [map (\<lambda>w. w) (wheelsToBlow (wheels s) (colorAt (colors (wheels s ! i)) 0))]\<rparr>"

subsection \<open>Concrete scenes\<close>

text \<open>The palette table of the sketch.\<close>

definition colorPalettes :: "string list list" where
  "colorPalettes =
     [[''#45206A'', ''#FFD700'', ''#FF8C00'', ''#B0E0E6'', ''#8A2BE2''],
      [''#D90429'', ''#F4D35E'', ''#F7B267'', ''#0A796F'', ''#2E4057''],
      [''#A34A2A'', ''#F2AF29'', ''#E0A890'', ''#3E8914'', ''#D4327C''],
      [''#004C6D'', ''#7FC2BF'', ''#FFC94F'', ''#D83A56'', ''#5C88BF''],
      [''#C11F68'', ''#F9E795'', ''#F5EEF8'', ''#2ECC71'', ''#8E44AD''],
      [''#006D77'', ''#FF8C00'', ''#E29578'', ''#83C5BE'', ''#D64045'']]"

definition zero_draws :: "nat \<Rightarrow> real" where
  "zero_draws n = 0"

text \<open>One wheel of radius 100 at (200, 200).\<close>

definition one_wheel :: "placement list" where
  "one_wheel = [(200, 200, 100, colorPalettes ! 0, 0)]"

text \<open>Two wheels of radius 100 whose centres are 170 apart, which the packing loop accepts
  (it rejects a distance below \<open>200 - 0.4 * 100 = 160\<close>); the point (285, 200) lies in both.\<close>

definition overlapping_wheels :: "placement list" where
  "overlapping_wheels =
     [(200, 200, 100, colorPalettes ! 0, 0), (370, 200, 100, colorPalettes ! 1, 0)]"

text \<open>The state after a click at (285, 200) on the two overlapping wheels.\<close>

definition overlapping_clicked :: state where
  "overlapping_clicked = mousePressed (initializeArtwork overlapping_wheels) 285 200 zero_draws"

text \<open>Five wheels of radius 50 in a row, 120 apart, with the first two palettes alternating
  (the packing loop never gives two consecutive wheels the same palette).\<close>

definition five_wheels :: "placement list" where
  "five_wheels =
     [(100, 100, 50, colorPalettes ! 0, 0), (220, 100, 50, colorPalettes ! 1, 0),
      (340, 100, 50, colorPalettes ! 0, 0), (460, 100, 50, colorPalettes ! 1, 0),
      (580, 100, 50, colorPalettes ! 0, 0)]"

text \<open>The state after a click at the centre of the first of the five wheels.\<close>

definition five_clicked :: state where
  "five_clicked = mousePressed (initializeArtwork five_wheels) 100 100 zero_draws"

text \<open>The state after a second click, at the centre of the second of the five wheels.\<close>

definition five_clicked_twice :: state where
  "five_clicked_twice = mousePressed five_clicked 220 100 zero_draws"

text \<open>The state after a click at the centre of the single wheel.\<close>

definition one_clicked :: state where
  "one_clicked = mousePressed (initializeArtwork one_wheel) 200 200 zero_draws"

text \<open>The same click followed by 127 frames.\<close>

definition faded_scene :: state where
  "faded_scene = run one_wheel (MousePressed 200 200 zero_draws # replicate 127 Draw)"

text \<open>Draws that give the first particle of a click the rotation speed \<open>pi / 128\<close>
  (the third draw of its constructor is scaled to \<open>[-0.05, 0.05)\<close>), and the state after a
  click at the centre of the single wheel with these draws, followed by 64 frames.\<close>

definition drift_draws :: "nat \<Rightarrow> real" where
  "drift_draws n = (if n = 2 then 1 / 2 + 5 * pi / 64 else 0)"

definition drifted_scene :: state where
  "drifted_scene = run one_wheel (MousePressed 200 200 drift_draws # replicate 64 Draw)"

text \<open>Draws that differ from call to call (0, 0.1, ..., 0.9 and again), and the state
  after a click at the centre of the single wheel with these draws.\<close>

definition ramp_draws :: "nat \<Rightarrow> real" where
  "ramp_draws n = real (n mod 10) / 10"

definition ramp_clicked :: state where
  "ramp_clicked = mousePressed (initializeArtwork one_wheel) 200 200 ramp_draws"

section \<open>Basic facts about the operations\<close>


lemma contains_iff:
  "contains w px py \<longleftrightarrow> 0 < radius w \<and> (wheelX w - px)\<^sup>2 + (wheelY w - py)\<^sup>2 < (radius w)\<^sup>2"
proof -
  let ?d = "(wheelX w - px)\<^sup>2 + (wheelY w - py)\<^sup>2"
  have nn: "0 \<le> ?d" by simp
  show ?thesis
  proof (cases "0 < radius w")
    case True
    then have "sqrt ?d < radius w \<longleftrightarrow> ?d < (radius w)\<^sup>2"
      using nn by (metis real_sqrt_less_iff real_sqrt_abs abs_of_pos real_sqrt_unique less_imp_le)
    then show ?thesis using True by (simp add: contains_def p5_dist_def)
  next
    case False
    have "0 \<le> sqrt ?d" using nn by simp
    then show ?thesis using False unfolding contains_def p5_dist_def by linarith
  qed
qed

lemma draw_particles_loop_eq:
  "n \<le> length ps \<Longrightarrow>
   draw_particles_loop n ps = filter (\<lambda>p. \<not> reaped p) (map update (take n ps)) @ drop n ps"
proof (induction n arbitrary: ps)
  case 0
  then show ?case by simp
next
  case (Suc n)
  then have n: "n < length ps" by simp
  let ?p = "update (ps ! n)"
  let ?ps3 = "if reaped ?p then splice1 n (ps[n := ?p]) else ps[n := ?p]"
  have step: "draw_particles_loop (Suc n) ps = draw_particles_loop n ?ps3"
    by (auto simp: Let_def reaped_def)
  have len: "n \<le> length ?ps3" using n by (auto simp add: splice1_def)
  have tk: "take n ?ps3 = take n ps" using n by (simp add: splice1_def)
  have dr: "drop n ?ps3 = (if reaped ?p then drop (Suc n) ps else ?p # drop (Suc n) ps)"
    using n by (simp add: splice1_def drop_update_cancel Cons_nth_drop_Suc[symmetric] upd_conv_take_nth_drop)
  have "draw_particles_loop n ?ps3 =
          filter (\<lambda>p. \<not> reaped p) (map update (take n ?ps3)) @ drop n ?ps3"
    using Suc.IH[OF len] .
  then show ?case
    unfolding step using n by (simp add: tk dr take_Suc_conv_app_nth)
qed



lemma mark_length [simp]: "length (mark f ks ws) = length ws"
  unfolding mark_def by (induction ks arbitrary: ws) simp_all

lemma mark_Nil [simp]: "mark f [] ws = ws"
  by (simp add: mark_def)

lemma mark_Cons: "mark f (k # ks) ws = mark f ks (ws[k := f (ws ! k)])"
  by (simp add: mark_def)

lemma mark_nth:
  assumes idem: "\<And>w. f (f w) = f w"
  shows "i < length ws \<Longrightarrow> mark f ks ws ! i = (if i \<in> set ks then f (ws ! i) else ws ! i)"
proof (induction ks arbitrary: ws)
  case Nil
  then show ?case by simp
next
  case (Cons k ks)
  have len: "i < length (ws[k := f (ws ! k)])" using Cons.prems by simp
  show ?case
  proof (cases "i = k")
    case True
    then show ?thesis
      unfolding mark_Cons Cons.IH[OF len] using Cons.prems by (simp add: idem)
  next
    case False
    then show ?thesis
      unfolding mark_Cons Cons.IH[OF len] using Cons.prems by simp
  qed
qed

lemma blow_fold_wheels:
  "wheels (fst (fold (blow_one rnd) ks sc)) = mark blowAway ks (wheels (fst sc))"
  by (induction ks arbitrary: sc) (simp_all add: mark_Cons blow_one_def Let_def blowAway_def)

lemma blow_fold_history:
  "blownAwayHistory (fst (fold (blow_one rnd) ks sc)) = blownAwayHistory (fst sc)"
  by (induction ks arbitrary: sc) (simp_all add: blow_one_def Let_def)

lemma length_spoke_particles [simp]: "length (spoke_particles w rnd c) = spokeCount"
  by (simp add: spoke_particles_def)

lemma length_dot_particles [simp]: "length (dot_particles w rnd c) = dotCount"
  by (simp add: dot_particles_def)

lemma blow_fold_particles_length:
  "length (dandelionParticles (fst (fold (blow_one rnd) ks sc))) =
   length (dandelionParticles (fst sc)) + length ks * (spokeCount + dotCount)"
  by (induction ks arbitrary: sc) (simp_all add: blow_one_def Let_def algebra_simps)

lemma blow_fold_particles_prefix:
  "take (length (dandelionParticles (fst sc))) (dandelionParticles (fst (fold (blow_one rnd) ks sc)))
   = dandelionParticles (fst sc)"
proof (induction ks arbitrary: sc)
  case Nil
  then show ?case by simp
next
  case (Cons k ks)
  let ?sc1 = "blow_one rnd k sc"
  have ext: "\<exists>zs. dandelionParticles (fst ?sc1) = dandelionParticles (fst sc) @ zs"
    by (simp add: blow_one_def Let_def)
  then obtain zs where zs: "dandelionParticles (fst ?sc1) = dandelionParticles (fst sc) @ zs" ..
  let ?r = "dandelionParticles (fst (fold (blow_one rnd) ks ?sc1))"
  have "take (length (dandelionParticles (fst ?sc1))) ?r = dandelionParticles (fst ?sc1)"
    by (rule Cons.IH)
  then have "take (length (dandelionParticles (fst sc))) (take (length (dandelionParticles (fst ?sc1))) ?r)
             = take (length (dandelionParticles (fst sc))) (dandelionParticles (fst ?sc1))"
    by simp
  then show ?case by (simp add: zs min_def)
qed

lemma mousePressed_loop_no_hit:
  "(\<forall>i<n. \<not> (contains (wheels s ! i) mx my \<and> \<not> isBlownAway (wheels s ! i))) \<Longrightarrow>
   mousePressed_loop n s mx my rnd = s"
  by (induction n) (auto simp add: Let_def less_Suc_eq)

lemma mousePressed_loop_hit:
  "i < n \<Longrightarrow> contains (wheels s ! i) mx my \<Longrightarrow> \<not> isBlownAway (wheels s ! i) \<Longrightarrow>
   (\<forall>j. i < j \<and> j < n \<longrightarrow> \<not> (contains (wheels s ! j) mx my \<and> \<not> isBlownAway (wheels s ! j))) \<Longrightarrow>
   mousePressed_loop n s mx my rnd = blow_from s i rnd"
proof (induction n)
  case 0
  then show ?case by simp
next
  case (Suc n)
  show ?case
  proof (cases "i = n")
    case True
    then show ?thesis using Suc.prems by (simp add: Let_def)
  next
    case False
    then have "i < n" using Suc.prems by simp
    moreover have nohit: "\<not> (contains (wheels s ! n) mx my \<and> \<not> isBlownAway (wheels s ! n))"
      using Suc.prems(4) \<open>i < n\<close> by blast
    moreover have "\<forall>j. i < j \<and> j < n \<longrightarrow>
        \<not> (contains (wheels s ! j) mx my \<and> \<not> isBlownAway (wheels s ! j))"
      using Suc.prems(4) by (meson less_Suc_eq)
    ultimately have "mousePressed_loop n s mx my rnd = blow_from s i rnd"
      using Suc.IH Suc.prems(2,3) by blast
    then show ?thesis using nohit by (auto simp add: Let_def)
  qed
qed

lemma wheelsToBlow_set:
  "set (wheelsToBlow ws c) = {k. k < length ws \<and> colorAt (colors (ws ! k)) 0 = c \<and> \<not> isBlownAway (ws ! k)}"
  by (auto simp: wheelsToBlow_def)

lemma wheelsToBlow_distinct: "distinct (wheelsToBlow ws c)"
  by (simp add: wheelsToBlow_def)

lemma blow_from_eq:
  "i < length (wheels s) \<Longrightarrow> \<not> isBlownAway (wheels s ! i) \<Longrightarrow>
   blow_from s i rnd =
     fst (fold (blow_one rnd) (wheelsToBlow (wheels s) (colorAt (colors (wheels s ! i)) 0))
       (s\<lparr>blownAwayHistory := blownAwayHistory s
            @ [wheelsToBlow (wheels s) (colorAt (colors (wheels s ! i)) 0)]\<rparr>, 0))"
proof -
  assume a: "i < length (wheels s)" "\<not> isBlownAway (wheels s ! i)"
  then have "i \<in> set (wheelsToBlow (wheels s) (colorAt (colors (wheels s ! i)) 0))"
    by (simp add: wheelsToBlow_set)
  then have "wheelsToBlow (wheels s) (colorAt (colors (wheels s ! i)) 0) \<noteq> []" by auto
  then show ?thesis by (simp add: blow_from_def Let_def)
qed



lemma fold_filter_update:
  "n \<le> length ps \<Longrightarrow>
   fold (\<lambda>i qs. qs[i := f (qs ! i)]) (filter (\<lambda>i. Q (ps ! i)) [0..<n]) ps
   = map (\<lambda>p. if Q p then f p else p) (take n ps) @ drop n ps"
proof (induction n)
  case 0
  then show ?case by simp
next
  case (Suc n)
  then have n: "n < length ps" by simp
  let ?g = "\<lambda>p. if Q p then f p else p"
  let ?X = "map ?g (take n ps) @ drop n ps"
  have IH: "fold (\<lambda>i qs. qs[i := f (qs ! i)]) (filter (\<lambda>i. Q (ps ! i)) [0..<n]) ps = ?X"
    using Suc.IH n by simp
  have Xn: "?X ! n = ps ! n" using n by (simp add: nth_append)
  have Xupd: "?X[n := v] = map ?g (take n ps) @ v # drop (Suc n) ps" for v
    using n by (simp add: list_update_append Cons_nth_drop_Suc[symmetric])
  have Xid: "?X = map ?g (take n ps) @ ps ! n # drop (Suc n) ps"
    using n by (simp add: Cons_nth_drop_Suc)
  show ?case
  proof (cases "Q (ps ! n)")
    case True
    then show ?thesis using n by (simp add: IH Xn Xupd take_Suc_conv_app_nth)
  next
    case False
    then show ?thesis using n by (simp add: IH Xid take_Suc_conv_app_nth)
  qed
qed

lemma restore_one_wheels:
  "wheels (restore_one k s) = (wheels s)[k := restoreWheel (wheels s ! k)]"
  by (simp add: restore_one_def Let_def restoreWheel_def)

lemma restore_one_history:
  "blownAwayHistory (restore_one k s) = blownAwayHistory s"
  by (simp add: restore_one_def Let_def)

lemma restore_one_particles:
  "dandelionParticles (restore_one k s) =
   map (\<lambda>p. if particleMatches ((wheels s)[k := restoreWheel (wheels s ! k)] ! k) p
             then startReturn p else p) (dandelionParticles s)"
  using fold_filter_update[of "length (dandelionParticles s)" "dandelionParticles s" startReturn
      "particleMatches ((wheels s)[k := restoreWheel (wheels s ! k)] ! k)"]
  by (simp add: restore_one_def Let_def restoreWheel_def)

lemma restore_fold_wheels:
  "wheels (fold restore_one ks s) = mark restoreWheel ks (wheels s)"
  by (induction ks arbitrary: s) (simp_all add: mark_Cons restore_one_wheels)

lemma restore_fold_history:
  "blownAwayHistory (fold restore_one ks s) = blownAwayHistory s"
  by (induction ks arbitrary: s) (simp_all add: restore_one_history)

lemma startReturn_idem: "startReturn (startReturn p) = startReturn p"
  by (simp add: startReturn_def)

lemma restore_fold_particles_length:
  "length (dandelionParticles (fold restore_one ks s)) = length (dandelionParticles s)"
  by (induction ks arbitrary: s) (simp_all add: restore_one_particles)

lemma restore_fold_particles_nth:
  "i < length (dandelionParticles s) \<Longrightarrow>
   dandelionParticles (fold restore_one ks s) ! i = dandelionParticles s ! i \<or>
   dandelionParticles (fold restore_one ks s) ! i = startReturn (dandelionParticles s ! i)"
proof (induction ks arbitrary: s)
  case Nil
  then show ?case by simp
next
  case (Cons k ks)
  let ?s1 = "restore_one k s"
  have len: "i < length (dandelionParticles ?s1)"
    using Cons.prems by (simp add: restore_one_particles)
  have one: "dandelionParticles ?s1 ! i = dandelionParticles s ! i \<or>
             dandelionParticles ?s1 ! i = startReturn (dandelionParticles s ! i)"
    using Cons.prems by (simp add: restore_one_particles)
  from Cons.IH[OF len] one show ?case
    by (auto simp: startReturn_idem)
qed

lemma blowAway_idem: "blowAway (blowAway w) = blowAway w"
  by (simp add: blowAway_def)

lemma restoreWheel_idem: "restoreWheel (restoreWheel w) = restoreWheel w"
  by (simp add: restoreWheel_def)


text \<open>A click whose topmost intact wheel under the mouse has index \<open>i\<close> runs the dispersal
  body for the intact wheels of the same base colour.\<close>

lemma mousePressed_hit_eq:
  assumes i: "i < length (wheels s)"
    and hit: "contains (wheels s ! i) mouseX mouseY" "\<not> isBlownAway (wheels s ! i)"
    and top: "\<forall>j. i < j \<and> j < length (wheels s) \<longrightarrow>
                \<not> (contains (wheels s ! j) mouseX mouseY \<and> \<not> isBlownAway (wheels s ! j))"
  shows "mousePressed s mouseX mouseY rnd =
     fst (fold (blow_one rnd) (wheelsToBlow (wheels s) (colorAt (colors (wheels s ! i)) 0))
       (s\<lparr>blownAwayHistory := blownAwayHistory s
            @ [wheelsToBlow (wheels s) (colorAt (colors (wheels s ! i)) 0)]\<rparr>, 0))"
  unfolding mousePressed_def
  using mousePressed_loop_hit[OF i hit top] blow_from_eq[OF i hit(2)] by simp

lemma mousePressed_hit_history:
  assumes "i < length (wheels s)" "contains (wheels s ! i) mouseX mouseY"
    "\<not> isBlownAway (wheels s ! i)"
    "\<forall>j. i < j \<and> j < length (wheels s) \<longrightarrow>
        \<not> (contains (wheels s ! j) mouseX mouseY \<and> \<not> isBlownAway (wheels s ! j))"
  shows "blownAwayHistory (mousePressed s mouseX mouseY rnd) =
     blownAwayHistory s @ [wheelsToBlow (wheels s) (colorAt (colors (wheels s ! i)) 0)]"
  by (simp add: mousePressed_hit_eq[OF assms] blow_fold_history)

lemma mousePressed_hit_wheels:
  assumes "i < length (wheels s)" "contains (wheels s ! i) mouseX mouseY"
    "\<not> isBlownAway (wheels s ! i)"
    "\<forall>j. i < j \<and> j < length (wheels s) \<longrightarrow>
        \<not> (contains (wheels s ! j) mouseX mouseY \<and> \<not> isBlownAway (wheels s ! j))"
  shows "wheels (mousePressed s mouseX mouseY rnd) =
     mark blowAway (wheelsToBlow (wheels s) (colorAt (colors (wheels s ! i)) 0)) (wheels s)"
  by (simp add: mousePressed_hit_eq[OF assms] blow_fold_wheels)

lemma mousePressed_hit_particles_length:
  assumes "i < length (wheels s)" "contains (wheels s ! i) mouseX mouseY"
    "\<not> isBlownAway (wheels s ! i)"
    "\<forall>j. i < j \<and> j < length (wheels s) \<longrightarrow>
        \<not> (contains (wheels s ! j) mouseX mouseY \<and> \<not> isBlownAway (wheels s ! j))"
  shows "length (dandelionParticles (mousePressed s mouseX mouseY rnd)) =
     length (dandelionParticles s)
       + length (wheelsToBlow (wheels s) (colorAt (colors (wheels s ! i)) 0)) * 64"
  using blow_fold_particles_length[of rnd
      "wheelsToBlow (wheels s) (colorAt (colors (wheels s ! i)) 0)"
      "(s\<lparr>blownAwayHistory := blownAwayHistory s
            @ [wheelsToBlow (wheels s) (colorAt (colors (wheels s ! i)) 0)]\<rparr>, 0)"]
  by (simp add: mousePressed_hit_eq[OF assms] spokeCount_def dotCount_def)

lemma mousePressed_no_hit:
  assumes "\<forall>i<length (wheels s).
             \<not> (contains (wheels s ! i) mouseX mouseY \<and> \<not> isBlownAway (wheels s ! i))"
  shows "mousePressed s mouseX mouseY rnd = s"
  unfolding mousePressed_def using assms by (rule mousePressed_loop_no_hit)

subsection \<open>The concrete scenes, evaluated\<close>

lemma one_wheel_wheels:
  "wheels (initializeArtwork one_wheel) = [Wheel 200 200 100 (colorPalettes ! 0) 0]"
  by (simp add: initializeArtwork_def one_wheel_def)

lemma overlapping_wheels_wheels:
  "wheels (initializeArtwork overlapping_wheels) =
     [Wheel 200 200 100 (colorPalettes ! 0) 0, Wheel 370 200 100 (colorPalettes ! 1) 0]"
  by (simp add: initializeArtwork_def overlapping_wheels_def)

lemma base_colors:
  "colorAt (colorPalettes ! 0) 0 = Some ''#45206A''"
  "colorAt (colorPalettes ! 1) 0 = Some ''#D90429''"
  "colorAt (colorPalettes ! Suc 0) 0 = Some ''#D90429''"
  by (simp_all add: colorAt_def colorPalettes_def)

lemma Wheel_fields [simp]:
  "wheelX (Wheel x y r pal u) = x"
  "wheelY (Wheel x y r pal u) = y"
  "radius (Wheel x y r pal u) = r"
  "colors (Wheel x y r pal u) = pal"
  "isBlownAway (Wheel x y r pal u) = False"
  "innerAlpha (Wheel x y r pal u) = 0"
  "targetInnerAlpha (Wheel x y r pal u) = 255"
  "fadeSpeed (Wheel x y r pal u) = 5"
  by (simp_all add: Wheel_def)

lemma blowAway_fields [simp]:
  "wheelX (blowAway w) = wheelX w"
  "wheelY (blowAway w) = wheelY w"
  "radius (blowAway w) = radius w"
  "colors (blowAway w) = colors w"
  "isBlownAway (blowAway w) = True"
  "innerAlpha (blowAway w) = 0"
  "targetInnerAlpha (blowAway w) = targetInnerAlpha w"
  "fadeSpeed (blowAway w) = fadeSpeed w"
  by (simp_all add: blowAway_def)

lemma restoreWheel_fields [simp]:
  "wheelX (restoreWheel w) = wheelX w"
  "wheelY (restoreWheel w) = wheelY w"
  "radius (restoreWheel w) = radius w"
  "colors (restoreWheel w) = colors w"
  "isBlownAway (restoreWheel w) = False"
  "innerAlpha (restoreWheel w) = 0"
  "targetInnerAlpha (restoreWheel w) = targetInnerAlpha w"
  "fadeSpeed (restoreWheel w) = fadeSpeed w"
  by (simp_all add: restoreWheel_def)

text \<open>The first click at (285, 200) on the two overlapping wheels disperses the upper
  wheel, index 1, alone.\<close>

lemma overlapping_first_click:
  "blownAwayHistory overlapping_clicked = [[1]]"
  "wheels overlapping_clicked =
     [Wheel 200 200 100 (colorPalettes ! 0) 0, blowAway (Wheel 370 200 100 (colorPalettes ! 1) 0)]"
  "length (dandelionParticles overlapping_clicked) = 64"
  unfolding overlapping_clicked_def
proof -
  let ?s = "initializeArtwork overlapping_wheels"
  have i: "1 < length (wheels ?s)" by (simp add: overlapping_wheels_wheels)
  have c: "contains (wheels ?s ! 1) 285 200"
    by (simp add: overlapping_wheels_wheels contains_iff)
  have b: "\<not> isBlownAway (wheels ?s ! 1)" by (simp add: overlapping_wheels_wheels)
  have t: "\<forall>j. 1 < j \<and> j < length (wheels ?s) \<longrightarrow>
        \<not> (contains (wheels ?s ! j) 285 200 \<and> \<not> isBlownAway (wheels ?s ! j))"
    using i by (auto simp add: overlapping_wheels_wheels)
  have w: "wheelsToBlow (wheels ?s) (colorAt (colors (wheels ?s ! 1)) 0) = [1]"
    by (simp add: overlapping_wheels_wheels wheelsToBlow_def base_colors upt_rec[of 0] upt_rec[of 1])
  show "blownAwayHistory (mousePressed ?s 285 200 zero_draws) = [[1]]"
    using mousePressed_hit_history[OF i c b t, of zero_draws] unfolding w
    by (simp add: initializeArtwork_def)
  show "wheels (mousePressed ?s 285 200 zero_draws) =
     [Wheel 200 200 100 (colorPalettes ! 0) 0, blowAway (Wheel 370 200 100 (colorPalettes ! 1) 0)]"
    using mousePressed_hit_wheels[OF i c b t, of zero_draws] unfolding w
    by (simp add: overlapping_wheels_wheels mark_def)
  show "length (dandelionParticles (mousePressed ?s 285 200 zero_draws)) = 64"
    using mousePressed_hit_particles_length[OF i c b t, of zero_draws] unfolding w
    by (simp add: initializeArtwork_def)
qed

lemma five_wheels_wheels:
  "wheels (initializeArtwork five_wheels) =
     [Wheel 100 100 50 (colorPalettes ! 0) 0, Wheel 220 100 50 (colorPalettes ! 1) 0,
      Wheel 340 100 50 (colorPalettes ! 0) 0, Wheel 460 100 50 (colorPalettes ! 1) 0,
      Wheel 580 100 50 (colorPalettes ! 0) 0]"
  by (simp add: initializeArtwork_def five_wheels_def)

lemma five_wheels_hit:
  "0 < length (wheels (initializeArtwork five_wheels))"
  "contains (wheels (initializeArtwork five_wheels) ! 0) 100 100"
  "\<not> isBlownAway (wheels (initializeArtwork five_wheels) ! 0)"
  "\<forall>j. 0 < j \<and> j < length (wheels (initializeArtwork five_wheels)) \<longrightarrow>
     \<not> (contains (wheels (initializeArtwork five_wheels) ! j) 100 100
        \<and> \<not> isBlownAway (wheels (initializeArtwork five_wheels) ! j))"
proof -
  let ?ws = "wheels (initializeArtwork five_wheels)"
  show "0 < length ?ws" by (simp add: five_wheels_wheels)
  show "contains (?ws ! 0) 100 100" by (simp add: five_wheels_wheels contains_iff)
  show "\<not> isBlownAway (?ws ! 0)" by (simp add: five_wheels_wheels)
  have "\<not> contains (?ws ! j) 100 100" if "0 < j" "j < 5" for j
  proof -
    from that have "j = 1 \<or> j = 2 \<or> j = 3 \<or> j = 4" by arith
    then show ?thesis by (auto simp add: five_wheels_wheels contains_iff)
  qed
  then show "\<forall>j. 0 < j \<and> j < length ?ws \<longrightarrow>
     \<not> (contains (?ws ! j) 100 100 \<and> \<not> isBlownAway (?ws ! j))"
    by (simp add: five_wheels_wheels)
qed

lemma five_wheels_affected:
  "wheelsToBlow (wheels (initializeArtwork five_wheels))
     (colorAt (colors (wheels (initializeArtwork five_wheels) ! 0)) 0) = [0, 2, 4]"
  by (simp add: five_wheels_wheels wheelsToBlow_def base_colors eval_nat_numeral)

lemma five_clicked_state:
  "blownAwayHistory five_clicked = [[0, 2, 4]]"
  "wheels five_clicked =
     [blowAway (Wheel 100 100 50 (colorPalettes ! 0) 0), Wheel 220 100 50 (colorPalettes ! 1) 0,
      blowAway (Wheel 340 100 50 (colorPalettes ! 0) 0), Wheel 460 100 50 (colorPalettes ! 1) 0,
      blowAway (Wheel 580 100 50 (colorPalettes ! 0) 0)]"
  unfolding five_clicked_def
proof -
  let ?s = "initializeArtwork five_wheels"
  show "blownAwayHistory (mousePressed ?s 100 100 zero_draws) = [[0, 2, 4]]"
    using mousePressed_hit_history[OF five_wheels_hit, of zero_draws]
    unfolding five_wheels_affected by (simp add: initializeArtwork_def)
  show "wheels (mousePressed ?s 100 100 zero_draws) =
     [blowAway (Wheel 100 100 50 (colorPalettes ! 0) 0), Wheel 220 100 50 (colorPalettes ! 1) 0,
      blowAway (Wheel 340 100 50 (colorPalettes ! 0) 0), Wheel 460 100 50 (colorPalettes ! 1) 0,
      blowAway (Wheel 580 100 50 (colorPalettes ! 0) 0)]"
    using mousePressed_hit_wheels[OF five_wheels_hit, of zero_draws]
    unfolding five_wheels_affected by (simp add: five_wheels_wheels mark_def)
qed

lemma five_clicked_hit:
  "1 < length (wheels five_clicked)"
  "contains (wheels five_clicked ! 1) 220 100"
  "\<not> isBlownAway (wheels five_clicked ! 1)"
  "\<forall>j. 1 < j \<and> j < length (wheels five_clicked) \<longrightarrow>
     \<not> (contains (wheels five_clicked ! j) 220 100 \<and> \<not> isBlownAway (wheels five_clicked ! j))"
proof -
  let ?ws = "wheels five_clicked"
  note st = five_clicked_state
  show "1 < length ?ws" by (simp add: st)
  show "contains (?ws ! 1) 220 100" by (simp add: st contains_iff)
  show "\<not> isBlownAway (?ws ! 1)" by (simp add: st)
  have "\<not> (contains (?ws ! j) 220 100 \<and> \<not> isBlownAway (?ws ! j))" if "1 < j" "j < 5" for j
  proof -
    from that have "j = 2 \<or> j = 3 \<or> j = 4" by arith
    then show ?thesis by (auto simp add: st contains_iff)
  qed
  then show "\<forall>j. 1 < j \<and> j < length ?ws \<longrightarrow>
     \<not> (contains (?ws ! j) 220 100 \<and> \<not> isBlownAway (?ws ! j))"
    by (simp add: st)
qed

lemma five_clicked_affected:
  "wheelsToBlow (wheels five_clicked) (colorAt (colors (wheels five_clicked ! 1)) 0) = [1, 3]"
  by (simp add: five_clicked_state wheelsToBlow_def base_colors eval_nat_numeral)

lemma five_clicked_twice_state:
  "blownAwayHistory five_clicked_twice = [[0, 2, 4], [1, 3]]"
  "length (wheels five_clicked_twice) = 5"
  unfolding five_clicked_twice_def
proof -
  show "blownAwayHistory (mousePressed five_clicked 220 100 zero_draws) = [[0, 2, 4], [1, 3]]"
    using mousePressed_hit_history[OF five_clicked_hit, of zero_draws]
    unfolding five_clicked_affected by (simp add: five_clicked_state)
  show "length (wheels (mousePressed five_clicked 220 100 zero_draws)) = 5"
    using mousePressed_hit_wheels[OF five_clicked_hit, of zero_draws]
    by (simp add: five_clicked_state)
qed

lemma five_clicked_run: "five_clicked = run five_wheels [MousePressed 100 100 zero_draws]"
  by (simp add: five_clicked_def run_def)

lemma five_clicked_twice_run:
  "five_clicked_twice =
     run five_wheels [MousePressed 100 100 zero_draws, MousePressed 220 100 zero_draws]"
  by (simp add: five_clicked_twice_def five_clicked_def run_def)

subsection \<open>The two outcomes of each handler\<close>

lemma mousePressed_loop_cases:
  "mousePressed_loop n s mx my rnd = s \<or>
   (\<exists>i<n. contains (wheels s ! i) mx my \<and> \<not> isBlownAway (wheels s ! i) \<and>
      mousePressed_loop n s mx my rnd = blow_from s i rnd)"
proof (induction n)
  case 0
  then show ?case by simp
next
  case (Suc n)
  show ?case
  proof (cases "contains (wheels s ! n) mx my \<and> \<not> isBlownAway (wheels s ! n)")
    case True
    then have "mousePressed_loop (Suc n) s mx my rnd = blow_from s n rnd"
      by (simp add: Let_def)
    with True show ?thesis by blast
  next
    case False
    then have "mousePressed_loop (Suc n) s mx my rnd = mousePressed_loop n s mx my rnd"
      by (auto simp add: Let_def)
    with Suc.IH show ?thesis by (metis less_Suc_eq)
  qed
qed

lemma mousePressed_cases:
  "mousePressed s mx my rnd = s \<or>
   (\<exists>i<length (wheels s). \<not> isBlownAway (wheels s ! i) \<and>
      mousePressed s mx my rnd =
        fst (fold (blow_one rnd) (wheelsToBlow (wheels s) (colorAt (colors (wheels s ! i)) 0))
          (s\<lparr>blownAwayHistory := blownAwayHistory s
               @ [wheelsToBlow (wheels s) (colorAt (colors (wheels s ! i)) 0)]\<rparr>, 0)))"
proof -
  from mousePressed_loop_cases[of "length (wheels s)" s mx my rnd]
  show ?thesis
  proof
    assume "mousePressed_loop (length (wheels s)) s mx my rnd = s"
    then show ?thesis by (simp add: mousePressed_def)
  next
    assume "\<exists>i<length (wheels s). contains (wheels s ! i) mx my \<and> \<not> isBlownAway (wheels s ! i) \<and>
      mousePressed_loop (length (wheels s)) s mx my rnd = blow_from s i rnd"
    then obtain i where i: "i < length (wheels s)" "\<not> isBlownAway (wheels s ! i)"
      "mousePressed_loop (length (wheels s)) s mx my rnd = blow_from s i rnd" by blast
    then show ?thesis
      unfolding mousePressed_def using blow_from_eq[OF i(1,2), of rnd] by auto
  qed
qed

lemma mousePressed_wheels:
  "\<exists>ks. wheels (mousePressed s mx my rnd) = mark blowAway ks (wheels s)"
proof -
  from mousePressed_cases[of s mx my rnd] show ?thesis
  proof
    assume "mousePressed s mx my rnd = s"
    then have "wheels (mousePressed s mx my rnd) = mark blowAway [] (wheels s)" by simp
    then show ?thesis ..
  next
    assume "\<exists>i<length (wheels s). \<not> isBlownAway (wheels s ! i) \<and>
      mousePressed s mx my rnd =
        fst (fold (blow_one rnd) (wheelsToBlow (wheels s) (colorAt (colors (wheels s ! i)) 0))
          (s\<lparr>blownAwayHistory := blownAwayHistory s
               @ [wheelsToBlow (wheels s) (colorAt (colors (wheels s ! i)) 0)]\<rparr>, 0))"
    then obtain i where "mousePressed s mx my rnd =
        fst (fold (blow_one rnd) (wheelsToBlow (wheels s) (colorAt (colors (wheels s ! i)) 0))
          (s\<lparr>blownAwayHistory := blownAwayHistory s
               @ [wheelsToBlow (wheels s) (colorAt (colors (wheels s ! i)) 0)]\<rparr>, 0))"
      by blast
    then have "wheels (mousePressed s mx my rnd) =
        mark blowAway (wheelsToBlow (wheels s) (colorAt (colors (wheels s ! i)) 0)) (wheels s)"
      by (simp add: blow_fold_wheels)
    then show ?thesis ..
  qed
qed

lemma keyPressed_cases:
  "keyPressed s keyCode = s \<or>
   (blownAwayHistory s \<noteq> [] \<and>
    keyPressed s keyCode =
      fold restore_one (last (blownAwayHistory s))
        (s\<lparr>blownAwayHistory := butlast (blownAwayHistory s)\<rparr>))"
  by (simp add: keyPressed_def Let_def)

lemma draw_wheels: "wheels (draw s) = map updateAlpha (wheels s)"
  by (simp add: draw_def)

lemma draw_history: "blownAwayHistory (draw s) = blownAwayHistory s"
  by (simp add: draw_def)

lemma draw_particles:
  "dandelionParticles (draw s) = filter (\<lambda>p. \<not> reaped p) (map update (dandelionParticles s))"
  using draw_particles_loop_eq[of "length (dandelionParticles s)" "dandelionParticles s"]
  by (simp add: draw_def)

lemma run_Nil: "run placed [] = initializeArtwork placed"
  by (simp add: run_def)

lemma run_snoc: "run placed (evs @ [e]) = step e (run placed evs)"
  by (simp add: run_def)

lemma run_Cons_init: "run placed (e # evs) = fold step evs (step e (initializeArtwork placed))"
  by (simp add: run_def)

text \<open>A property of the state that holds after \<open>initializeArtwork\<close> and is kept by the three
  handlers holds after every run.\<close>

lemma run_induct:
  assumes init: "\<And>placed. P (initializeArtwork placed)"
    and dr: "\<And>s. P s \<Longrightarrow> P (draw s)"
    and mp: "\<And>s mx my rnd. P s \<Longrightarrow> P (mousePressed s mx my rnd)"
    and kp: "\<And>s keyCode. P s \<Longrightarrow> P (keyPressed s keyCode)"
  shows "P (run placed evs)"
proof (induction evs rule: rev_induct)
  case Nil
  show ?case by (simp add: run_Nil init)
next
  case (snoc e evs)
  show ?case
    unfolding run_snoc using snoc.IH
    by (cases e) (simp_all add: init dr mp kp windowResized_def)
qed

lemma mark_list_all:
  assumes f: "\<And>w. P w \<Longrightarrow> P (f w)"
  shows "list_all P ws \<Longrightarrow> list_all P (mark f ks ws)"
proof (induction ks arbitrary: ws)
  case Nil
  then show ?case by simp
next
  case (Cons k ks)
  have "list_all P (ws[k := f (ws ! k)])"
  proof (cases "k < length ws")
    case True
    then have "P (f (ws ! k))" using Cons.prems f by (simp add: list_all_length)
    then show ?thesis using Cons.prems
      by (auto simp add: list_all_iff dest!: set_update_subset_insert[THEN subsetD])
  next
    case False
    then have "ws[k := f (ws ! k)] = ws" by (intro list_update_beyond) arith
    then show ?thesis using Cons.prems by simp
  qed
  then show ?case unfolding mark_Cons by (rule Cons.IH)
qed

subsection \<open>Invariants of the wheels and of the history\<close>

lemma wheel_ok_Wheel: "wheel_ok (Wheel x y r palette u)"
  by (simp add: wheel_ok_def)

lemma wheel_ok_updateAlpha: "wheel_ok w \<Longrightarrow> wheel_ok (updateAlpha w)"
  by (auto simp add: wheel_ok_def updateAlpha_def)

lemma wheel_ok_blowAway: "wheel_ok w \<Longrightarrow> wheel_ok (blowAway w)"
  by (simp add: wheel_ok_def)

lemma wheel_ok_restoreWheel: "wheel_ok w \<Longrightarrow> wheel_ok (restoreWheel w)"
  by (simp add: wheel_ok_def)

lemma wheels_ok_run: "list_all wheel_ok (wheels (run placed evs))"
proof (rule run_induct)
  fix placed
  show "list_all wheel_ok (wheels (initializeArtwork placed))"
    by (auto simp add: initializeArtwork_def list_all_iff wheel_ok_Wheel)
next
  fix s :: state assume "list_all wheel_ok (wheels s)"
  then show "list_all wheel_ok (wheels (draw s))"
    by (auto simp add: draw_wheels list_all_iff wheel_ok_updateAlpha)
next
  fix s :: state and mx my rnd assume mp: "list_all wheel_ok (wheels s)"
  from mousePressed_wheels[of s mx my rnd]
  obtain ks where "wheels (mousePressed s mx my rnd) = mark blowAway ks (wheels s)" ..
  then show "list_all wheel_ok (wheels (mousePressed s mx my rnd))"
    using mp mark_list_all[of wheel_ok blowAway, OF wheel_ok_blowAway] by simp
next
  fix s :: state and keyCode assume kp: "list_all wheel_ok (wheels s)"
  from keyPressed_cases[of s keyCode]
  show "list_all wheel_ok (wheels (keyPressed s keyCode))"
  proof
    assume "keyPressed s keyCode = s"
    then show ?thesis using kp by simp
  next
    assume "blownAwayHistory s \<noteq> [] \<and>
      keyPressed s keyCode =
        fold restore_one (last (blownAwayHistory s))
          (s\<lparr>blownAwayHistory := butlast (blownAwayHistory s)\<rparr>)"
    then have "wheels (keyPressed s keyCode) = mark restoreWheel (last (blownAwayHistory s)) (wheels s)"
      by (simp add: restore_fold_wheels)
    then show ?thesis
      using kp mark_list_all[of wheel_ok restoreWheel, OF wheel_ok_restoreWheel] by simp
  qed
qed

lemma history_ok_init: "history_ok (initializeArtwork placed)"
  by (simp add: history_ok_def initializeArtwork_def)

lemma history_ok_draw: "history_ok s \<Longrightarrow> history_ok (draw s)"
  by (simp add: history_ok_def draw_wheels draw_history updateAlpha_def)

lemma history_ok_blow:
  assumes ok: "history_ok s"
    and s': "s' = fst (fold (blow_one rnd) (wheelsToBlow (wheels s) c)
                    (s\<lparr>blownAwayHistory := blownAwayHistory s @ [wheelsToBlow (wheels s) c]\<rparr>, 0))"
  shows "history_ok s'"
proof -
  let ?aff = "wheelsToBlow (wheels s) c"
  have h: "blownAwayHistory s' = blownAwayHistory s @ [?aff]"
    by (simp add: s' blow_fold_history)
  have w: "wheels s' = mark blowAway ?aff (wheels s)"
    by (simp add: s' blow_fold_wheels)
  have nth: "wheels s' ! k = (if k \<in> set ?aff then blowAway (wheels s ! k) else wheels s ! k)"
    if "k < length (wheels s)" for k
    unfolding w using mark_nth[of blowAway k "wheels s" ?aff, OF blowAway_idem that] .
  have old: "k < length (wheels s) \<and> isBlownAway (wheels s ! k)"
    if "b \<in> set (blownAwayHistory s)" "k \<in> set b" for b k
    using ok that by (auto simp add: history_ok_def)
  have new: "k < length (wheels s) \<and> \<not> isBlownAway (wheels s ! k)" if "k \<in> set ?aff" for k
    using that by (simp add: wheelsToBlow_set)
  have 1: "k < length (wheels s') \<and> isBlownAway (wheels s' ! k)"
    if "b \<in> set (blownAwayHistory s')" "k \<in> set b" for b k
  proof -
    from that have "b \<in> set (blownAwayHistory s) \<or> b = ?aff" by (auto simp add: h)
    then have k: "k < length (wheels s)" and bl: "k \<in> set ?aff \<or> isBlownAway (wheels s ! k)"
      using old new that(2) by blast+
    have "length (wheels s') = length (wheels s)" by (simp add: w)
    moreover have "isBlownAway (wheels s' ! k)" using k bl by (auto simp add: nth)
    ultimately show ?thesis using k by simp
  qed
  have disj: "set (concat (blownAwayHistory s)) \<inter> set ?aff = {}"
    using old new by fastforce
  have 2: "distinct (concat (blownAwayHistory s'))"
    using ok disj by (simp add: h history_ok_def wheelsToBlow_distinct)
  show ?thesis unfolding history_ok_def using 1 2 by blast
qed

lemma history_ok_mousePressed: "history_ok s \<Longrightarrow> history_ok (mousePressed s mx my rnd)"
  using mousePressed_cases[of s mx my rnd] history_ok_blow[of s] by auto

lemma history_ok_keyPressed:
  assumes ok: "history_ok s"
  shows "history_ok (keyPressed s keyCode)"
proof -
  from keyPressed_cases[of s keyCode] show ?thesis
  proof
    assume "keyPressed s keyCode = s"
    then show ?thesis using ok by simp
  next
    assume a: "blownAwayHistory s \<noteq> [] \<and>
      keyPressed s keyCode =
        fold restore_one (last (blownAwayHistory s))
          (s\<lparr>blownAwayHistory := butlast (blownAwayHistory s)\<rparr>)"
    let ?b = "last (blownAwayHistory s)"
    let ?h = "butlast (blownAwayHistory s)"
    let ?s' = "keyPressed s keyCode"
    have split: "blownAwayHistory s = ?h @ [?b]" using a by simp
    have h: "blownAwayHistory ?s' = ?h" using a by (simp add: restore_fold_history)
    have w: "wheels ?s' = mark restoreWheel ?b (wheels s)" using a by (simp add: restore_fold_wheels)
    have dc: "distinct (concat (?h @ [?b]))" using ok split by (simp add: history_ok_def)
    then have d: "distinct (concat ?h)" and disj: "set (concat ?h) \<inter> set ?b = {}"
      by auto
    have 1: "k < length (wheels ?s') \<and> isBlownAway (wheels ?s' ! k)"
      if "b \<in> set ?h" "k \<in> set b" for b k
    proof -
      have "b \<in> set (blownAwayHistory s)" using that(1) by (rule in_set_butlastD)
      then have k: "k < length (wheels s)" and bl: "isBlownAway (wheels s ! k)"
        using ok that(2) by (auto simp add: history_ok_def)
      have "k \<in> set (concat ?h)" using that by auto
      then have "k \<notin> set ?b" using disj by blast
      then have "wheels ?s' ! k = wheels s ! k"
        unfolding w using mark_nth[of restoreWheel k "wheels s" ?b, OF restoreWheel_idem k] by simp
      then show ?thesis using k bl by (simp add: w)
    qed
    show ?thesis unfolding history_ok_def h using 1 d by blast
  qed
qed

lemma history_ok_run: "history_ok (run placed evs)"
  by (rule run_induct)
    (simp_all add: history_ok_init history_ok_draw history_ok_mousePressed history_ok_keyPressed)

lemma distinct_concat_disjoint:
  "distinct (concat h) \<Longrightarrow> a < length h \<Longrightarrow> b < length h \<Longrightarrow> a \<noteq> b \<Longrightarrow>
   set (h ! a) \<inter> set (h ! b) = {}"
proof (induction h arbitrary: a b)
  case Nil
  then show ?case by simp
next
  case (Cons x h)
  show ?case
  proof (cases a)
    case 0
    then obtain b' where b: "b = Suc b'" "b' < length h" using Cons.prems by (cases b) auto
    then have "h ! b' \<in> set h" by simp
    then have "set (h ! b') \<subseteq> set (concat h)" by auto
    then show ?thesis using Cons.prems(1) 0 b by auto
  next
    case (Suc a')
    show ?thesis
    proof (cases b)
      case 0
      have "h ! a' \<in> set h" using Suc Cons.prems by simp
      then have "set (h ! a') \<subseteq> set (concat h)" by auto
      then show ?thesis using Cons.prems(1) 0 Suc by auto
    next
      case (Suc b')
      then show ?thesis using Cons.prems \<open>a = Suc a'\<close> Cons.IH[of a' b'] by simp
    qed
  qed
qed

subsection \<open>Particles under update, spawning and restoration\<close>

lemma update_fields [simp]:
  "isReturning (update p) = isReturning p"
  "returnSpeed (update p) = returnSpeed p"
  "ptype (update p) = ptype p"
  "targetX (update p) = targetX p"
  "targetY (update p) = targetY p"
  "originalX (update p) = originalX p"
  "originalY (update p) = originalY p"
  "windX (update p) = windX p"
  "windY (update p) = windY p"
  "color (update p) = color p"
  by (simp_all add: update_def)

lemma update_alpha:
  "alpha (update p) =
     (if isReturning p then (1 - 2 * returnSpeed p) * alpha p else alpha p - 2)"
  by (simp add: update_def p5_lerp_def algebra_simps)

lemma update_rotation:
  "rotation (update p) = (if isReturning p then rotation p else rotation p + rotationSpeed p)"
  by (simp add: update_def)

lemma update_rotationSpeed_drift:
  "\<not> isReturning p \<Longrightarrow> rotationSpeed (update p) = rotationSpeed p"
  by (simp add: update_def)

lemma startReturn_fields [simp]:
  "isReturning (startReturn p) = True"
  "alpha (startReturn p) = alpha p"
  "returnSpeed (startReturn p) = returnSpeed p"
  "ptype (startReturn p) = ptype p"
  "targetX (startReturn p) = targetX p"
  "targetY (startReturn p) = targetY p"
  "partX (startReturn p) = partX p"
  "partY (startReturn p) = partY p"
  "originalX (startReturn p) = partX p"
  "originalY (startReturn p) = partY p"
  "rotation (startReturn p) = rotation p"
  by (simp_all add: startReturn_def)

lemma funpow_update_fields [simp]:
  "isReturning ((update ^^ n) p) = isReturning p"
  "returnSpeed ((update ^^ n) p) = returnSpeed p"
  "ptype ((update ^^ n) p) = ptype p"
  "targetX ((update ^^ n) p) = targetX p"
  "targetY ((update ^^ n) p) = targetY p"
  by (induction n) simp_all

lemma funpow_update_drift:
  "\<not> isReturning p \<Longrightarrow>
   alpha ((update ^^ n) p) = alpha p - 2 * real n
   \<and> rotationSpeed ((update ^^ n) p) = rotationSpeed p
   \<and> rotation ((update ^^ n) p) = rotation p + real n * rotationSpeed p"
  by (induction n)
    (simp_all add: update_alpha update_rotation update_rotationSpeed_drift algebra_simps)

lemma funpow_update_return:
  "isReturning p \<Longrightarrow>
   alpha ((update ^^ n) p) = (1 - 2 * returnSpeed p) ^ n * alpha p"
  by (induction n) (simp_all add: update_alpha)

lemma particle_ok_new:
  "particle_ok (DandelionParticle x y ty col sz tx ty' a rnd c)"
  by (simp add: particle_ok_def DandelionParticle_def)

lemma particle_ok_spoke: "particle_ok (spoke_particle w rnd c j)"
  by (simp add: spoke_particle_def Let_def particle_ok_new)

lemma particle_ok_dot: "particle_ok (dot_particle w rnd c j)"
  by (simp add: dot_particle_def Let_def particle_ok_new)

lemma particle_ok_startReturn: "particle_ok p \<Longrightarrow> particle_ok (startReturn p)"
  by (simp add: particle_ok_def)

lemma particle_ok_update:
  assumes "particle_ok p" "\<not> reaped (update p)"
  shows "particle_ok (update p)"
proof (cases "isReturning p")
  case True
  have "alpha (update p) = 9 / 10 * alpha p"
    using assms(1) True by (simp add: update_alpha particle_ok_def)
  then show ?thesis using assms(1) by (simp add: particle_ok_def)
next
  case False
  have a: "alpha (update p) = alpha p - 2" using False by (simp add: update_alpha)
  have "0 < alpha (update p)" using assms(2) False by (auto simp add: reaped_def)
  then show ?thesis using assms(1) a by (simp add: particle_ok_def)
qed

lemma blow_one_particles:
  "dandelionParticles (fst (blow_one rnd k sc)) =
     dandelionParticles (fst sc)
       @ spoke_particles (blowAway (wheels (fst sc) ! k)) rnd (snd sc)
       @ dot_particles (blowAway (wheels (fst sc) ! k)) rnd (snd sc + 5 * spokeCount)"
  by (simp add: blow_one_def Let_def blowAway_def)

lemma blow_one_wheels:
  "wheels (fst (blow_one rnd k sc)) = (wheels (fst sc))[k := blowAway (wheels (fst sc) ! k)]"
  by (simp add: blow_one_def Let_def blowAway_def)

lemma blow_fold_particles_all:
  assumes sp: "\<And>w c j. P (spoke_particle w rnd c j)"
    and dp: "\<And>w c j. P (dot_particle w rnd c j)"
  shows "list_all P (dandelionParticles (fst sc)) \<Longrightarrow>
         list_all P (dandelionParticles (fst (fold (blow_one rnd) ks sc)))"
proof (induction ks arbitrary: sc)
  case Nil
  then show ?case by simp
next
  case (Cons k ks)
  have "list_all P (dandelionParticles (fst (blow_one rnd k sc)))"
    using Cons.prems
    by (auto simp add: blow_one_particles list_all_iff spoke_particles_def dot_particles_def sp dp)
  then show ?case using Cons.IH by simp
qed

lemma mousePressed_particles_all:
  assumes sp: "\<And>w c j. P (spoke_particle w rnd c j)"
    and dp: "\<And>w c j. P (dot_particle w rnd c j)"
    and old: "list_all P (dandelionParticles s)"
  shows "list_all P (dandelionParticles (mousePressed s mx my rnd))"
proof -
  from mousePressed_cases[of s mx my rnd] show ?thesis
  proof
    assume "mousePressed s mx my rnd = s"
    then show ?thesis using old by simp
  next
    assume "\<exists>i<length (wheels s). \<not> isBlownAway (wheels s ! i) \<and>
      mousePressed s mx my rnd =
        fst (fold (blow_one rnd) (wheelsToBlow (wheels s) (colorAt (colors (wheels s ! i)) 0))
          (s\<lparr>blownAwayHistory := blownAwayHistory s
               @ [wheelsToBlow (wheels s) (colorAt (colors (wheels s ! i)) 0)]\<rparr>, 0))"
    then obtain ks h where e: "mousePressed s mx my rnd =
        fst (fold (blow_one rnd) ks (s\<lparr>blownAwayHistory := h\<rparr>, 0))"
      by blast
    show ?thesis
      unfolding e
      using blow_fold_particles_all[of P rnd "(s\<lparr>blownAwayHistory := h\<rparr>, 0)" ks, OF sp dp] old
      by simp
  qed
qed

lemma keyPressed_particles_length:
  "length (dandelionParticles (keyPressed s keyCode)) = length (dandelionParticles s)"
  using keyPressed_cases[of s keyCode] by (auto simp add: restore_fold_particles_length)

lemma keyPressed_particles_nth:
  assumes "i < length (dandelionParticles s)"
  shows "dandelionParticles (keyPressed s keyCode) ! i = dandelionParticles s ! i \<or>
         dandelionParticles (keyPressed s keyCode) ! i = startReturn (dandelionParticles s ! i)"
proof -
  from keyPressed_cases[of s keyCode] show ?thesis
  proof
    assume "keyPressed s keyCode = s"
    then show ?thesis by simp
  next
    assume a: "blownAwayHistory s \<noteq> [] \<and>
      keyPressed s keyCode =
        fold restore_one (last (blownAwayHistory s))
          (s\<lparr>blownAwayHistory := butlast (blownAwayHistory s)\<rparr>)"
    show ?thesis
      using restore_fold_particles_nth[of i "s\<lparr>blownAwayHistory := butlast (blownAwayHistory s)\<rparr>"
          "last (blownAwayHistory s)"] assms a
      by simp
  qed
qed

lemma keyPressed_particles_all:
  assumes st: "\<And>p. P p \<Longrightarrow> P (startReturn p)"
    and old: "list_all P (dandelionParticles s)"
  shows "list_all P (dandelionParticles (keyPressed s keyCode))"
  unfolding list_all_length
proof (intro allI impI)
  fix i assume "i < length (dandelionParticles (keyPressed s keyCode))"
  then have i: "i < length (dandelionParticles s)" by (simp add: keyPressed_particles_length)
  then have "P (dandelionParticles s ! i)" using old by (simp add: list_all_length)
  then show "P (dandelionParticles (keyPressed s keyCode) ! i)"
    using keyPressed_particles_nth[OF i, of keyCode] st by auto
qed

lemma particles_ok_run: "list_all particle_ok (dandelionParticles (run placed evs))"
proof (rule run_induct)
  fix placed
  show "list_all particle_ok (dandelionParticles (initializeArtwork placed))"
    by (simp add: initializeArtwork_def)
next
  fix s :: state assume "list_all particle_ok (dandelionParticles s)"
  then show "list_all particle_ok (dandelionParticles (draw s))"
    by (auto simp add: draw_particles list_all_iff particle_ok_update)
next
  fix s :: state and mx my rnd assume "list_all particle_ok (dandelionParticles s)"
  then show "list_all particle_ok (dandelionParticles (mousePressed s mx my rnd))"
    using mousePressed_particles_all[of particle_ok rnd s mx my] particle_ok_spoke particle_ok_dot
    by blast
next
  fix s :: state and keyCode assume "list_all particle_ok (dandelionParticles s)"
  then show "list_all particle_ok (dandelionParticles (keyPressed s keyCode))"
    using keyPressed_particles_all[of particle_ok s keyCode] particle_ok_startReturn by blast
qed

text \<open>Frames in which no particle is removed: all particles drift and are opaque enough.\<close>

lemma fold_Draw: "fold step (replicate n Draw) s = (draw ^^ n) s"
  by (induction n arbitrary: s) (simp_all add: funpow_swap1)

lemma draw_drifting:
  assumes "\<forall>p \<in> set (dandelionParticles s). \<not> isReturning p \<and> 2 < alpha p"
  shows "dandelionParticles (draw s) = map update (dandelionParticles s)"
proof -
  have "\<forall>q \<in> set (map update (dandelionParticles s)). \<not> reaped q"
    using assms by (auto simp add: reaped_def update_alpha)
  then show ?thesis by (simp add: draw_particles)
qed

lemma funpow_draw_drifting:
  "\<forall>p \<in> set (dandelionParticles s). \<not> isReturning p \<and> 2 * real n < alpha p \<Longrightarrow>
   dandelionParticles ((draw ^^ n) s) = map (update ^^ n) (dandelionParticles s)"
proof (induction n arbitrary: s)
  case 0
  then show ?case by simp
next
  case (Suc n)
  have d: "dandelionParticles (draw s) = map update (dandelionParticles s)"
    using Suc.prems by (intro draw_drifting) fastforce
  have "\<forall>p \<in> set (dandelionParticles (draw s)). \<not> isReturning p \<and> 2 * real n < alpha p"
    using Suc.prems unfolding d by (auto simp add: update_alpha)
  then have "dandelionParticles ((draw ^^ n) (draw s)) = map (update ^^ n) (dandelionParticles (draw s))"
    by (rule Suc.IH)
  then show ?case by (simp add: funpow_swap1 d)
qed

lemma funpow_draw_wheels: "wheels ((draw ^^ n) s) = map (updateAlpha ^^ n) (wheels s)"
  by (induction n arbitrary: s) (simp_all add: draw_wheels funpow_swap1)

lemma funpow_draw_history: "blownAwayHistory ((draw ^^ n) s) = blownAwayHistory s"
  by (induction n) (simp_all add: draw_history)

lemma blow_fold_particles_split:
  "dandelionParticles (fst (fold (blow_one rnd) ks sc)) =
     dandelionParticles (fst sc)
       @ drop (length (dandelionParticles (fst sc)))
           (dandelionParticles (fst (fold (blow_one rnd) ks sc)))"
  using blow_fold_particles_prefix[of sc rnd ks]
    append_take_drop_id[of "length (dandelionParticles (fst sc))"
      "dandelionParticles (fst (fold (blow_one rnd) ks sc))"]
  by simp

lemma blow_fold_Cons_new:
  "drop (length (dandelionParticles (fst sc)))
     (dandelionParticles (fst (fold (blow_one rnd) (k # ks) sc))) =
   spoke_particles (blowAway (wheels (fst sc) ! k)) rnd (snd sc)
     @ dot_particles (blowAway (wheels (fst sc) ! k)) rnd (snd sc + 5 * spokeCount)
     @ drop (length (dandelionParticles (fst (blow_one rnd k sc))))
         (dandelionParticles (fst (fold (blow_one rnd) ks (blow_one rnd k sc))))"
proof -
  let ?sc1 = "blow_one rnd k sc"
  let ?R = "dandelionParticles (fst (fold (blow_one rnd) ks ?sc1))"
  have "?R = dandelionParticles (fst ?sc1) @ drop (length (dandelionParticles (fst ?sc1))) ?R"
    by (rule blow_fold_particles_split)
  then have "drop (length (dandelionParticles (fst sc))) ?R =
      drop (length (dandelionParticles (fst sc)))
        (dandelionParticles (fst ?sc1) @ drop (length (dandelionParticles (fst ?sc1))) ?R)"
    by simp
  then show ?thesis by (simp add: blow_one_particles)
qed

lemma blow_fold_particles_new:
  assumes sp: "\<And>w c j. P (spoke_particle w rnd c j)"
    and dp: "\<And>w c j. P (dot_particle w rnd c j)"
  shows "list_all P (drop (length (dandelionParticles (fst sc)))
           (dandelionParticles (fst (fold (blow_one rnd) ks sc))))"
proof (induction ks arbitrary: sc)
  case Nil
  show ?case by simp
next
  case (Cons k ks)
  show ?case
    unfolding blow_fold_Cons_new
    using Cons.IH[of "blow_one rnd k sc"]
    by (auto simp add: list_all_iff spoke_particles_def dot_particles_def sp dp)
qed

lemma mousePressed_particles_prefix:
  "take (length (dandelionParticles s)) (dandelionParticles (mousePressed s mx my rnd))
   = dandelionParticles s"
proof -
  from mousePressed_cases[of s mx my rnd] show ?thesis
  proof
    assume "mousePressed s mx my rnd = s"
    then show ?thesis by simp
  next
    assume "\<exists>i<length (wheels s). \<not> isBlownAway (wheels s ! i) \<and>
      mousePressed s mx my rnd =
        fst (fold (blow_one rnd) (wheelsToBlow (wheels s) (colorAt (colors (wheels s ! i)) 0))
          (s\<lparr>blownAwayHistory := blownAwayHistory s
               @ [wheelsToBlow (wheels s) (colorAt (colors (wheels s ! i)) 0)]\<rparr>, 0))"
    then obtain ks h where e: "mousePressed s mx my rnd =
        fst (fold (blow_one rnd) ks (s\<lparr>blownAwayHistory := h\<rparr>, 0))"
      by blast
    show ?thesis
      unfolding e using blow_fold_particles_prefix[of "(s\<lparr>blownAwayHistory := h\<rparr>, 0)" rnd ks]
      by simp
  qed
qed

lemma mousePressed_particles_new:
  assumes sp: "\<And>w c j. P (spoke_particle w rnd c j)"
    and dp: "\<And>w c j. P (dot_particle w rnd c j)"
  shows "list_all P (drop (length (dandelionParticles s))
           (dandelionParticles (mousePressed s mx my rnd)))"
proof -
  from mousePressed_cases[of s mx my rnd] show ?thesis
  proof
    assume "mousePressed s mx my rnd = s"
    then show ?thesis by simp
  next
    assume "\<exists>i<length (wheels s). \<not> isBlownAway (wheels s ! i) \<and>
      mousePressed s mx my rnd =
        fst (fold (blow_one rnd) (wheelsToBlow (wheels s) (colorAt (colors (wheels s ! i)) 0))
          (s\<lparr>blownAwayHistory := blownAwayHistory s
               @ [wheelsToBlow (wheels s) (colorAt (colors (wheels s ! i)) 0)]\<rparr>, 0))"
    then obtain ks h where e: "mousePressed s mx my rnd =
        fst (fold (blow_one rnd) ks (s\<lparr>blownAwayHistory := h\<rparr>, 0))"
      by blast
    show ?thesis
      unfolding e
      using blow_fold_particles_new[of P rnd "(s\<lparr>blownAwayHistory := h\<rparr>, 0)" ks, OF sp dp]
      by simp
  qed
qed

lemma new_particle_fields [simp]:
  "alpha (DandelionParticle x y ty col sz tx ty' a rnd c) = 255"
  "isReturning (DandelionParticle x y ty col sz tx ty' a rnd c) = False"
  "returnSpeed (DandelionParticle x y ty col sz tx ty' a rnd c) = 0.05"
  "ptype (DandelionParticle x y ty col sz tx ty' a rnd c) = ty"
  "partX (DandelionParticle x y ty col sz tx ty' a rnd c) = x"
  "partY (DandelionParticle x y ty col sz tx ty' a rnd c) = y"
  "originalX (DandelionParticle x y ty col sz tx ty' a rnd c) = x"
  "originalY (DandelionParticle x y ty col sz tx ty' a rnd c) = y"
  "targetX (DandelionParticle x y ty col sz tx ty' a rnd c) = tx"
  "targetY (DandelionParticle x y ty col sz tx ty' a rnd c) = ty'"
  "rotation (DandelionParticle x y ty col sz tx ty' a rnd c) = a"
  "rotationSpeed (DandelionParticle x y ty col sz tx ty' a rnd c)
     = p5_random (rnd (c + 2)) (- 0.05) 0.05"
  by (simp_all add: DandelionParticle_def)

lemma spawned_fresh:
  "alpha (spoke_particle w rnd c j) = 255 \<and> \<not> isReturning (spoke_particle w rnd c j)"
  "alpha (dot_particle w rnd c j) = 255 \<and> \<not> isReturning (dot_particle w rnd c j)"
  by (simp_all add: spoke_particle_def dot_particle_def Let_def)

lemma spoke_particles_nth:
  "j < spokeCount \<Longrightarrow> spoke_particles w rnd c ! j = spoke_particle w rnd (c + 5 * j) j"
  by (simp add: spoke_particles_def)

lemma dot_particles_nth:
  "j < dotCount \<Longrightarrow> dot_particles w rnd c ! j = dot_particle w rnd (c + 5 * j) j"
  by (simp add: dot_particles_def)

lemma p5_dist_less_iff:
  "p5_dist x1 y1 x2 y2 < r \<longleftrightarrow> 0 < r \<and> (x2 - x1)\<^sup>2 + (y2 - y1)\<^sup>2 < r\<^sup>2"
proof -
  let ?d = "(x2 - x1)\<^sup>2 + (y2 - y1)\<^sup>2"
  have nn: "0 \<le> ?d" by simp
  show ?thesis
  proof (cases "0 < r")
    case True
    then have "sqrt ?d < r \<longleftrightarrow> ?d < r\<^sup>2"
      using nn by (metis real_sqrt_less_iff real_sqrt_abs real_sqrt_unique less_imp_le)
    then show ?thesis using True by (simp add: p5_dist_def)
  next
    case False
    have "0 \<le> sqrt ?d" using nn by simp
    then show ?thesis using False unfolding p5_dist_def by linarith
  qed
qed

lemma funpow_updateAlpha_fields [simp]:
  "wheelX ((updateAlpha ^^ n) w) = wheelX w"
  "wheelY ((updateAlpha ^^ n) w) = wheelY w"
  "radius ((updateAlpha ^^ n) w) = radius w"
  "colors ((updateAlpha ^^ n) w) = colors w"
  "isBlownAway ((updateAlpha ^^ n) w) = isBlownAway w"
  by (induction n) (simp_all add: updateAlpha_def)

subsection \<open>The single wheel, clicked at its centre and left to drift\<close>

lemma one_wheel_click:
  "blownAwayHistory (mousePressed (initializeArtwork one_wheel) 200 200 rnd) = [[0]]"
  "wheels (mousePressed (initializeArtwork one_wheel) 200 200 rnd) =
     [blowAway (Wheel 200 200 100 (colorPalettes ! 0) 0)]"
  "dandelionParticles (mousePressed (initializeArtwork one_wheel) 200 200 rnd) =
     spoke_particles (blowAway (Wheel 200 200 100 (colorPalettes ! 0) 0)) rnd 0
       @ dot_particles (blowAway (Wheel 200 200 100 (colorPalettes ! 0) 0)) rnd 120"
proof -
  let ?s = "initializeArtwork one_wheel"
  have i: "0 < length (wheels ?s)" by (simp add: one_wheel_wheels)
  have c: "contains (wheels ?s ! 0) 200 200" by (simp add: one_wheel_wheels contains_iff)
  have b: "\<not> isBlownAway (wheels ?s ! 0)" by (simp add: one_wheel_wheels)
  have t: "\<forall>j. 0 < j \<and> j < length (wheels ?s) \<longrightarrow>
        \<not> (contains (wheels ?s ! j) 200 200 \<and> \<not> isBlownAway (wheels ?s ! j))"
    by (simp add: one_wheel_wheels)
  have w: "wheelsToBlow (wheels ?s) (colorAt (colors (wheels ?s ! 0)) 0) = [0]"
    by (simp add: one_wheel_wheels wheelsToBlow_def)
  note e = mousePressed_hit_eq[OF i c b t, of rnd, unfolded w]
  show "blownAwayHistory (mousePressed ?s 200 200 rnd) = [[0]]"
    unfolding e by (simp add: blow_one_def Let_def initializeArtwork_def)
  show "wheels (mousePressed ?s 200 200 rnd) = [blowAway (Wheel 200 200 100 (colorPalettes ! 0) 0)]"
    unfolding e by (simp add: blow_one_wheels one_wheel_wheels)
  show "dandelionParticles (mousePressed ?s 200 200 rnd) =
     spoke_particles (blowAway (Wheel 200 200 100 (colorPalettes ! 0) 0)) rnd 0
       @ dot_particles (blowAway (Wheel 200 200 100 (colorPalettes ! 0) 0)) rnd 120"
    unfolding e
    by (simp add: blow_one_particles one_wheel_wheels spokeCount_def)
      (simp add: initializeArtwork_def)
qed

lemma one_wheel_drift:
  assumes n: "2 * real n < 255"
  shows "blownAwayHistory (run one_wheel (MousePressed 200 200 rnd # replicate n Draw)) = [[0]]"
    and "wheels (run one_wheel (MousePressed 200 200 rnd # replicate n Draw)) =
       [(updateAlpha ^^ n) (blowAway (Wheel 200 200 100 (colorPalettes ! 0) 0))]"
    and "dandelionParticles (run one_wheel (MousePressed 200 200 rnd # replicate n Draw)) =
       map (update ^^ n)
         (spoke_particles (blowAway (Wheel 200 200 100 (colorPalettes ! 0) 0)) rnd 0
           @ dot_particles (blowAway (Wheel 200 200 100 (colorPalettes ! 0) 0)) rnd 120)"
proof -
  let ?c = "mousePressed (initializeArtwork one_wheel) 200 200 rnd"
  have "step Draw = draw" by (rule ext) simp
  then have r: "run one_wheel (MousePressed 200 200 rnd # replicate n Draw) = (draw ^^ n) ?c"
    by (simp add: run_Cons_init)
  show "blownAwayHistory (run one_wheel (MousePressed 200 200 rnd # replicate n Draw)) = [[0]]"
    by (simp add: r funpow_draw_history one_wheel_click)
  show "wheels (run one_wheel (MousePressed 200 200 rnd # replicate n Draw)) =
       [(updateAlpha ^^ n) (blowAway (Wheel 200 200 100 (colorPalettes ! 0) 0))]"
    by (simp add: r funpow_draw_wheels one_wheel_click)
  have "\<forall>p \<in> set (dandelionParticles ?c). \<not> isReturning p \<and> 2 * real n < alpha p"
    using n by (auto simp add: one_wheel_click spoke_particles_def dot_particles_def spawned_fresh)
  then show "dandelionParticles (run one_wheel (MousePressed 200 200 rnd # replicate n Draw)) =
       map (update ^^ n)
         (spoke_particles (blowAway (Wheel 200 200 100 (colorPalettes ! 0) 0)) rnd 0
           @ dot_particles (blowAway (Wheel 200 200 100 (colorPalettes ! 0) 0)) rnd 120)"
    unfolding r by (simp add: funpow_draw_drifting one_wheel_click)
qed

lemma one_wheel_drift_first:
  assumes n: "2 * real n < 255"
  shows "dandelionParticles (run one_wheel (MousePressed 200 200 rnd # replicate n Draw)) ! 0 =
       (update ^^ n) (spoke_particle (blowAway (Wheel 200 200 100 (colorPalettes ! 0) 0)) rnd 0 0)"
  using spoke_particles_nth[of 0 "blowAway (Wheel 200 200 100 (colorPalettes ! 0) 0)" rnd 0]
  by (simp add: one_wheel_drift(3)[OF n] nth_append spokeCount_def)

lemma keyPressed_single:
  assumes h: "blownAwayHistory s = [[0]]" and w: "wheels s = [w]"
  shows "dandelionParticles (keyPressed s 32) =
           map (\<lambda>p. if particleMatches (restoreWheel w) p then startReturn p else p)
             (dandelionParticles s)"
    and "wheels (keyPressed s 32) = [restoreWheel w]"
    and "blownAwayHistory (keyPressed s 32) = []"
proof -
  have kp: "keyPressed s 32 = restore_one 0 (s\<lparr>blownAwayHistory := []\<rparr>)"
    by (simp add: keyPressed_def h)
  show "dandelionParticles (keyPressed s 32) =
           map (\<lambda>p. if particleMatches (restoreWheel w) p then startReturn p else p)
             (dandelionParticles s)"
    by (simp add: kp restore_one_particles w)
  show "wheels (keyPressed s 32) = [restoreWheel w]"
    by (simp add: kp restore_one_wheels w)
  show "blownAwayHistory (keyPressed s 32) = []"
    by (simp add: kp restore_one_history)
qed

lemma particleMatches_spoke:
  "ptype p = ''spoke'' \<Longrightarrow>
   particleMatches w p \<longleftrightarrow>
     p5_dist (targetX p) (targetY p)
       (wheelX w + cos (rotation p) * radius w * 0.8)
       (wheelY w + sin (rotation p) * radius w * 0.8) < 10"
  by (simp add: particleMatches_def)

lemma particleMatches_outerDot:
  "ptype p = ''outerDot'' \<Longrightarrow>
   particleMatches w p \<longleftrightarrow>
     p5_dist (targetX p) (targetY p)
       (wheelX w + cos (atan2 (targetY p - wheelY w) (targetX p - wheelX w)) * radius w * 0.9)
       (wheelY w + sin (atan2 (targetY p - wheelY w) (targetX p - wheelX w)) * radius w * 0.9)
       < 10"
  by (simp add: particleMatches_def)

lemma first_spoke_fields:
  "ptype (spoke_particle w rnd c 0) = ''spoke''"
  "targetX (spoke_particle w rnd c 0) = wheelX w + radius w * 0.8"
  "targetY (spoke_particle w rnd c 0) = wheelY w"
  "partX (spoke_particle w rnd c 0) = wheelX w + radius w * 0.8"
  "partY (spoke_particle w rnd c 0) = wheelY w"
  "rotation (spoke_particle w rnd c 0) = 0"
  "rotationSpeed (spoke_particle w rnd c 0) = p5_random (rnd (c + 2)) (- 0.05) 0.05"
  "alpha (spoke_particle w rnd c 0) = 255"
  "isReturning (spoke_particle w rnd c 0) = False"
  "returnSpeed (spoke_particle w rnd c 0) = 0.05"
  by (simp_all add: spoke_particle_def Let_def p5_map_def)

lemma first_dot_fields:
  "ptype (dot_particle w rnd c 0) = ''outerDot''"
  "targetX (dot_particle w rnd c 0) = wheelX w + radius w * 0.9"
  "targetY (dot_particle w rnd c 0) = wheelY w"
  "isReturning (dot_particle w rnd c 0) = False"
  by (simp_all add: dot_particle_def Let_def p5_map_def)

lemma one_clicked_run: "one_clicked = run one_wheel [MousePressed 200 200 zero_draws]"
  by (simp add: one_clicked_def run_def)

lemma one_clicked_first:
  "dandelionParticles one_clicked \<noteq> []"
  "dandelionParticles one_clicked ! 0 =
     spoke_particle (blowAway (Wheel 200 200 100 (colorPalettes ! 0) 0)) zero_draws 0 0"
  using spoke_particles_nth[of 0 "blowAway (Wheel 200 200 100 (colorPalettes ! 0) 0)" zero_draws 0]
  by (simp_all add: one_clicked_def one_wheel_click nth_append spokeCount_def spoke_particles_def)

lemma one_clicked_restored_first:
  "dandelionParticles (keyPressed one_clicked 32) ! 0 =
     startReturn (spoke_particle (blowAway (Wheel 200 200 100 (colorPalettes ! 0) 0)) zero_draws 0 0)"
proof -
  let ?w = "blowAway (Wheel 200 200 100 (colorPalettes ! 0) 0)"
  let ?p = "spoke_particle ?w zero_draws 0 0"
  have h: "blownAwayHistory one_clicked = [[0]]" and w: "wheels one_clicked = [?w]"
    by (simp_all add: one_clicked_def one_wheel_click)
  have m: "particleMatches (restoreWheel ?w) ?p"
    by (simp add: particleMatches_spoke first_spoke_fields p5_dist_less_iff)
  have "0 < length (dandelionParticles one_clicked)" using one_clicked_first(1) by simp
  then show ?thesis
    using m by (simp add: keyPressed_single(1)[OF h w] one_clicked_first(2))
qed

subsection \<open>What a dispersal spawns\<close>

lemma spoke_particle_blowAway [simp]:
  "spoke_particle (blowAway w) rnd c j = spoke_particle w rnd c j"
  by (simp add: spoke_particle_def)

lemma dot_particle_blowAway [simp]:
  "dot_particle (blowAway w) rnd c j = dot_particle w rnd c j"
  by (simp add: dot_particle_def)

lemma blow_one_snd: "snd (blow_one rnd k sc) = snd sc + 320"
  by (simp add: blow_one_def Let_def spokeCount_def dotCount_def)

lemma blow_one_particles_length:
  "length (dandelionParticles (fst (blow_one rnd k sc))) = length (dandelionParticles (fst sc)) + 64"
  by (simp add: blow_one_particles spokeCount_def dotCount_def)

text \<open>The particles of one wheel, by position: 24 spoke particles, then 40 outer-dot
  particles, the particle at position \<open>m\<close> using the draws from \<open>c + 5 * m\<close> on.\<close>

lemma blow_one_new_nth:
  assumes m: "m < 64"
  shows "dandelionParticles (fst (blow_one rnd k sc)) ! (length (dandelionParticles (fst sc)) + m) =
     (if m < 24 then spoke_particle (wheels (fst sc) ! k) rnd (snd sc + 5 * m) m
      else dot_particle (wheels (fst sc) ! k) rnd (snd sc + 5 * m) (m - 24))"
proof (cases "m < 24")
  case True
  then show ?thesis
    by (simp add: blow_one_particles nth_append spoke_particles_nth spokeCount_def)
next
  case False
  then have j: "m - 24 < dotCount" using m by (simp add: dotCount_def)
  have c: "snd sc + 120 + 5 * (m - 24) = snd sc + 5 * m"
    using False by simp
  show ?thesis
    using False by (simp add: blow_one_particles nth_append dot_particles_nth[OF j]
        spokeCount_def) (simp only: c)
qed

text \<open>The particles of the whole batch, by position: the wheel at position \<open>a\<close> of the batch
  owns the positions \<open>64 * a\<close>, ..., \<open>64 * a + 63\<close> after the earlier particles.\<close>

lemma blow_fold_new_nth:
  assumes "\<forall>k \<in> set ks. k < length (wheels (fst sc))" "a < length ks" "m < 64"
  shows "dandelionParticles (fst (fold (blow_one rnd) ks sc))
           ! (length (dandelionParticles (fst sc)) + 64 * a + m) =
     (if m < 24 then spoke_particle (wheels (fst sc) ! (ks ! a)) rnd (snd sc + 320 * a + 5 * m) m
      else dot_particle (wheels (fst sc) ! (ks ! a)) rnd (snd sc + 320 * a + 5 * m) (m - 24))"
  using assms
proof (induction ks arbitrary: sc a)
  case Nil
  then show ?case by simp
next
  case (Cons k ks)
  let ?ws = "wheels (fst sc)"
  let ?sc1 = "blow_one rnd k sc"
  let ?R = "dandelionParticles (fst (fold (blow_one rnd) ks ?sc1))"
  let ?n0 = "length (dandelionParticles (fst sc))"
  have len1: "length (dandelionParticles (fst ?sc1)) = ?n0 + 64"
    by (rule blow_one_particles_length)
  have pre: "take (?n0 + 64) ?R = dandelionParticles (fst ?sc1)"
    using blow_fold_particles_prefix[of ?sc1 rnd ks] by (simp add: len1)
  show ?case
  proof (cases a)
    case 0
    have "?R ! (?n0 + m) = take (?n0 + 64) ?R ! (?n0 + m)"
      using Cons.prems(3) by simp
    then have "?R ! (?n0 + m) = dandelionParticles (fst ?sc1) ! (?n0 + m)"
      by (simp add: pre)
    then show ?thesis
      using 0 blow_one_new_nth[OF Cons.prems(3), of rnd k sc] by simp
  next
    case (Suc a')
    have v: "\<forall>k' \<in> set ks. k' < length (wheels (fst ?sc1))"
      using Cons.prems(1) by (simp add: blow_one_wheels)
    have a': "a' < length ks" using Cons.prems(2) Suc by simp
    have idx: "?n0 + 64 * a + m = length (dandelionParticles (fst ?sc1)) + 64 * a' + m"
      using Suc by (simp add: len1)
    have cnt: "snd ?sc1 + 320 * a' + 5 * m = snd sc + 320 * a + 5 * m"
      using Suc by (simp add: blow_one_snd)
    have "ks ! a' \<in> set ks" using a' by simp
    then have "ks ! a' < length ?ws" using Cons.prems(1) by simp
    then have "wheels (fst ?sc1) ! (ks ! a') = ?ws ! (ks ! a')
        \<or> wheels (fst ?sc1) ! (ks ! a') = blowAway (?ws ! (ks ! a'))"
      by (cases "ks ! a' = k") (simp_all add: blow_one_wheels)
    then have same:
      "spoke_particle (wheels (fst ?sc1) ! (ks ! a')) rnd c j = spoke_particle (?ws ! (ks ! a')) rnd c j"
      "dot_particle (wheels (fst ?sc1) ! (ks ! a')) rnd c j = dot_particle (?ws ! (ks ! a')) rnd c j"
      for c j
      by auto
    show ?thesis
      using Cons.IH[OF v a' Cons.prems(3)] Suc
      unfolding idx cnt same by simp
  qed
qed

text \<open>The five random quantities of the constructor, in terms of the draws.\<close>

lemma polar_length: "(cos t * v)\<^sup>2 + (sin t * v)\<^sup>2 = (v::real)\<^sup>2"
proof -
  have "(cos t * v)\<^sup>2 + (sin t * v)\<^sup>2 = ((cos t)\<^sup>2 + (sin t)\<^sup>2) * v\<^sup>2"
    by (simp only: power_mult_distrib distrib_right)
  then show ?thesis by simp
qed

lemma new_particle_velocity:
  assumes p: "p = DandelionParticle x y ty col sz tx ty' a rnd c"
  shows "velX p = - cos (pi / 4 + rnd c * (pi / 4)) * (1 + 2 * rnd (c + 1))"
    and "(velX p)\<^sup>2 + (velY p)\<^sup>2 = (1 + 2 * rnd (c + 1))\<^sup>2"
proof -
  let ?t = "p5_random (rnd c) (pi + pi / 4) (pi + pi / 2)"
  let ?v = "p5_random (rnd (c + 1)) 1 3"
  have t: "?t = (pi / 4 + rnd c * (pi / 4)) + pi"
    by (simp add: p5_random_def algebra_simps)
  have v: "?v = 1 + 2 * rnd (c + 1)" by (simp add: p5_random_def)
  have vx: "velX p = cos ?t * ?v" and vy: "velY p = sin ?t * ?v"
    by (simp_all add: p DandelionParticle_def)
  have ce: "cos ?t = - cos (pi / 4 + rnd c * (pi / 4))"
    unfolding t by (rule cos_periodic_pi)
  show "velX p = - cos (pi / 4 + rnd c * (pi / 4)) * (1 + 2 * rnd (c + 1))"
    unfolding vx ce v by (rule refl)
  have "(cos ?t * ?v)\<^sup>2 + (sin ?t * ?v)\<^sup>2 = ?v\<^sup>2" by (rule polar_length)
  then show "(velX p)\<^sup>2 + (velY p)\<^sup>2 = (1 + 2 * rnd (c + 1))\<^sup>2"
    unfolding vx vy v .
qed

lemma new_particle_draws:
  assumes p: "p = DandelionParticle x y ty col sz tx ty' a rnd c"
  shows "rotationSpeed p = rnd (c + 2) / 10 - 0.05"
    and "windX p = 0.15 * rnd (c + 3) - 0.2"
    and "windY p = 0.05 + 0.15 * rnd (c + 4)"
  by (simp_all add: p DandelionParticle_def p5_random_def)

lemma velocity_leftward:
  assumes "0 \<le> u0" "u0 < 1" "0 \<le> u1"
  shows "- cos (pi / 4 + u0 * (pi / 4)) * (1 + 2 * u1) \<le> 0"
proof -
  have "u0 * (pi / 4) \<le> 1 * (pi / 4)" using assms(2) by (intro mult_right_mono) simp_all
  then have hi: "pi / 4 + u0 * (pi / 4) \<le> pi / 2" by linarith
  have "0 \<le> u0 * (pi / 4)" using assms(1) by simp
  then have lo: "- (pi / 2) \<le> pi / 4 + u0 * (pi / 4)" using pi_gt_zero by linarith
  have "0 \<le> cos (pi / 4 + u0 * (pi / 4))" using lo hi by (rule cos_ge_zero)
  moreover have "0 \<le> 1 + 2 * u1" using assms(3) by simp
  ultimately have "0 \<le> cos (pi / 4 + u0 * (pi / 4)) * (1 + 2 * u1)" by (rule mult_nonneg_nonneg)
  then show ?thesis by simp
qed

lemma spoke_particle_eq:
  "spoke_particle w rnd c j =
     DandelionParticle
       (wheelX w + cos (2 * pi * real j / 24) * (radius w * 0.8))
       (wheelY w + sin (2 * pi * real j / 24) * (radius w * 0.8))
       ''spoke'' (colorAt (colors w) 3) (radius w * 0.03 * 5)
       (wheelX w + cos (2 * pi * real j / 24) * (radius w * 0.8))
       (wheelY w + sin (2 * pi * real j / 24) * (radius w * 0.8))
       (2 * pi * real j / 24) rnd c"
  by (simp add: spoke_particle_def Let_def p5_map_def TWO_PI_def spokeCount_def algebra_simps)

lemma dot_particle_eq:
  "dot_particle w rnd c j =
     DandelionParticle
       (wheelX w + cos (2 * pi * real j / 40) * (radius w * 0.9))
       (wheelY w + sin (2 * pi * real j / 40) * (radius w * 0.9))
       ''outerDot'' (colorAt (colors w) 1) (radius w * 0.08)
       (wheelX w + cos (2 * pi * real j / 40) * (radius w * 0.9))
       (wheelY w + sin (2 * pi * real j / 40) * (radius w * 0.9))
       0 rnd c"
  by (simp add: dot_particle_def Let_def p5_map_def TWO_PI_def dotCount_def algebra_simps)

lemma one_wheel_hit:
  "0 < length (wheels (initializeArtwork one_wheel))"
  "contains (wheels (initializeArtwork one_wheel) ! 0) 200 200"
  "\<not> isBlownAway (wheels (initializeArtwork one_wheel) ! 0)"
  "\<forall>j. 0 < j \<and> j < length (wheels (initializeArtwork one_wheel)) \<longrightarrow>
     \<not> (contains (wheels (initializeArtwork one_wheel) ! j) 200 200
        \<and> \<not> isBlownAway (wheels (initializeArtwork one_wheel) ! j))"
  by (auto simp add: one_wheel_wheels contains_iff)

lemma one_wheel_affected:
  "wheelsToBlow (wheels (initializeArtwork one_wheel))
     (colorAt (colors (wheels (initializeArtwork one_wheel) ! 0)) 0) = [0]"
  by (simp add: one_wheel_wheels wheelsToBlow_def)

section \<open>The fade level of a wheel (claim C1)\<close>

text \<open>
  Claim C1. After \<open>setup\<close> and any sequence of frames, clicks, key presses and resizes, every
  wheel has \<open>innerAlpha\<close> in \<open>[0, 255]\<close>, and \<open>innerAlpha = 0\<close> when it is blown away (where
  \<open>updateAlpha\<close> keeps it at 0). For a wheel that is not blown away \<open>updateAlpha\<close> adds the
  fixed \<open>fadeSpeed = 5\<close>, capped at 255: the level never decreases and never exceeds 255.
\<close>

theorem wheel_fade_invariant:
  assumes "w \<in> set (wheels (run placed evs))"
  shows "0 \<le> innerAlpha w \<and> innerAlpha w \<le> 255
    \<and> (isBlownAway w \<longrightarrow> innerAlpha w = 0 \<and> innerAlpha (updateAlpha w) = 0)
    \<and> (\<not> isBlownAway w \<longrightarrow>
          fadeSpeed w = 5
          \<and> innerAlpha (updateAlpha w) = min (innerAlpha w + fadeSpeed w) 255
          \<and> innerAlpha w \<le> innerAlpha (updateAlpha w)
          \<and> innerAlpha (updateAlpha w) \<le> 255)"
proof -
  have "wheel_ok w"
    using wheels_ok_run[of placed evs] assms by (simp add: list_all_iff)
  then show ?thesis
    by (auto simp add: wheel_ok_def updateAlpha_def)
qed

text \<open>
  After two frames the single wheel has fade level 10 and the next step gives 15; after
  the click on the first of the five wheels that wheel is blown away with fade level 0.
\<close>

theorem wheel_fade_invariant_witness:
  "wheels (run one_wheel [Draw, Draw]) ! 0 \<in> set (wheels (run one_wheel [Draw, Draw]))
   \<and> \<not> isBlownAway (wheels (run one_wheel [Draw, Draw]) ! 0)
   \<and> innerAlpha (wheels (run one_wheel [Draw, Draw]) ! 0) = 10
   \<and> innerAlpha (updateAlpha (wheels (run one_wheel [Draw, Draw]) ! 0)) = 15
   \<and> wheels five_clicked ! 0 \<in> set (wheels (run five_wheels [MousePressed 100 100 zero_draws]))
   \<and> isBlownAway (wheels five_clicked ! 0)
   \<and> innerAlpha (wheels five_clicked ! 0) = 0
   \<and> innerAlpha (updateAlpha (wheels five_clicked ! 0)) = 0"
proof -
  let ?w = "wheels (run one_wheel [Draw, Draw]) ! 0"
  have ws: "wheels (run one_wheel [Draw, Draw]) =
      [updateAlpha (updateAlpha (Wheel 200 200 100 (colorPalettes ! 0) 0))]"
    by (simp add: run_def draw_wheels one_wheel_wheels)
  have m: "?w \<in> set (wheels (run one_wheel [Draw, Draw]))" by (simp add: ws)
  have a: "innerAlpha ?w = 10" by (simp add: ws updateAlpha_def)
  have b: "\<not> isBlownAway ?w" by (simp add: ws updateAlpha_def)
  have u: "innerAlpha (updateAlpha ?w) = 15"
    using wheel_fade_invariant[OF m] a b by simp
  let ?v = "wheels five_clicked ! 0"
  have m2: "?v \<in> set (wheels (run five_wheels [MousePressed 100 100 zero_draws]))"
    unfolding five_clicked_run[symmetric] by (simp add: five_clicked_state)
  have b2: "isBlownAway ?v" by (simp add: five_clicked_state)
  have z: "innerAlpha ?v = 0 \<and> innerAlpha (updateAlpha ?v) = 0"
    using wheel_fade_invariant[OF m2] b2 by blast
  show ?thesis using m a b u m2 b2 z by blast
qed

section \<open>Dispersal (claims C2, C4)\<close>

text \<open>
  Claim C2. A click whose topmost intact wheel under the mouse is wheel \<open>i\<close> affects exactly
  the intact wheels that share the base colour of wheel \<open>i\<close> (wheel \<open>i\<close> among them). It
  pushes that one batch onto the history, appends \<open>64 = 24 + 40\<close> particles per affected
  wheel to the live particles (the earlier ones stay as they are), and sets
  \<open>isBlownAway = true\<close> and \<open>innerAlpha = 0\<close> on every affected wheel and on no other.
\<close>

theorem mousePressed_dispersal:
  assumes i: "i < length (wheels s)"
    and hit: "contains (wheels s ! i) mouseX mouseY" "\<not> isBlownAway (wheels s ! i)"
    and top: "\<forall>j. i < j \<and> j < length (wheels s) \<longrightarrow>
                \<not> (contains (wheels s ! j) mouseX mouseY \<and> \<not> isBlownAway (wheels s ! j))"
    and aff: "affected = wheelsToBlow (wheels s) (colorAt (colors (wheels s ! i)) 0)"
    and s': "s' = mousePressed s mouseX mouseY rnd"
  shows "i \<in> set affected
    \<and> distinct affected
    \<and> set affected = {k. k < length (wheels s)
          \<and> colorAt (colors (wheels s ! k)) 0 = colorAt (colors (wheels s ! i)) 0
          \<and> \<not> isBlownAway (wheels s ! k)}
    \<and> blownAwayHistory s' = blownAwayHistory s @ [affected]
    \<and> length (dandelionParticles s') = length (dandelionParticles s) + length affected * 64
    \<and> spokeCount + dotCount = 64
    \<and> take (length (dandelionParticles s)) (dandelionParticles s') = dandelionParticles s
    \<and> length (wheels s') = length (wheels s)
    \<and> (\<forall>k<length (wheels s).
         wheels s' ! k =
           (if k \<in> set affected
            then (wheels s ! k)\<lparr>isBlownAway := True, innerAlpha := 0\<rparr>
            else wheels s ! k))"
proof -
  let ?s0 = "s\<lparr>blownAwayHistory := blownAwayHistory s @ [affected]\<rparr>"
  have eq: "s' = fst (fold (blow_one rnd) affected (?s0, 0))"
    unfolding s' aff by (rule mousePressed_hit_eq[OF i hit top])
  have cnt: "spokeCount + dotCount = 64" by (simp add: spokeCount_def dotCount_def)
  have 1: "i \<in> set affected" using i hit(2) by (simp add: aff wheelsToBlow_set)
  have 2: "distinct affected" by (simp add: aff wheelsToBlow_distinct)
  have 3: "set affected = {k. k < length (wheels s)
          \<and> colorAt (colors (wheels s ! k)) 0 = colorAt (colors (wheels s ! i)) 0
          \<and> \<not> isBlownAway (wheels s ! k)}"
    by (simp add: aff wheelsToBlow_set)
  have 4: "blownAwayHistory s' = blownAwayHistory s @ [affected]"
    by (simp add: eq blow_fold_history)
  have 5: "length (dandelionParticles s') = length (dandelionParticles s) + length affected * 64"
    using blow_fold_particles_length[of rnd affected "(?s0, 0)"] by (simp add: eq cnt)
  have 6: "take (length (dandelionParticles s)) (dandelionParticles s') = dandelionParticles s"
    using blow_fold_particles_prefix[of "(?s0, 0)" rnd affected] by (simp add: eq)
  have 7: "length (wheels s') = length (wheels s)"
    by (simp add: eq blow_fold_wheels)
  have 8: "\<forall>k<length (wheels s).
         wheels s' ! k =
           (if k \<in> set affected
            then (wheels s ! k)\<lparr>isBlownAway := True, innerAlpha := 0\<rparr>
            else wheels s ! k)"
  proof (intro allI impI)
    fix k assume k: "k < length (wheels s)"
    show "wheels s' ! k =
           (if k \<in> set affected
            then (wheels s ! k)\<lparr>isBlownAway := True, innerAlpha := 0\<rparr>
            else wheels s ! k)"
      using mark_nth[of blowAway k "wheels s" affected, OF blowAway_idem k]
      by (simp add: eq blow_fold_wheels blowAway_def)
  qed
  from 1 2 3 4 5 cnt 6 7 8 show ?thesis by blast
qed

text \<open>
  The scenario of the specification: three wheels of one base colour and two of another;
  a click on the first disperses the three (indices 0, 2 and 4), pushes one batch and
  spawns \<open>3 * 64 = 192\<close> particles; the other two wheels stay intact.
\<close>

theorem mousePressed_dispersal_witness:
  "blownAwayHistory (initializeArtwork five_wheels) = []
   \<and> dandelionParticles (initializeArtwork five_wheels) = []
   \<and> contains (wheels (initializeArtwork five_wheels) ! 0) 100 100
   \<and> blownAwayHistory five_clicked = [[0, 2, 4]]
   \<and> length (dandelionParticles five_clicked) = 192
   \<and> isBlownAway (wheels five_clicked ! 0)
   \<and> isBlownAway (wheels five_clicked ! 2)
   \<and> isBlownAway (wheels five_clicked ! 4)
   \<and> innerAlpha (wheels five_clicked ! 4) = 0
   \<and> \<not> isBlownAway (wheels five_clicked ! 1)
   \<and> \<not> isBlownAway (wheels five_clicked ! 3)"
proof -
  let ?s = "initializeArtwork five_wheels"
  have aff: "[0, 2, 4] = wheelsToBlow (wheels ?s) (colorAt (colors (wheels ?s ! 0)) 0)"
    by (simp add: five_wheels_affected)
  note d = mousePressed_dispersal[OF five_wheels_hit aff five_clicked_def]
  have h: "blownAwayHistory five_clicked = blownAwayHistory ?s @ [[0, 2, 4]]"
    using d by blast
  have l: "length (dandelionParticles five_clicked) =
      length (dandelionParticles ?s) + length [0::nat, 2, 4] * 64"
    using d by blast
  have w: "\<forall>k<length (wheels ?s). wheels five_clicked ! k =
           (if k \<in> set [0, 2, 4]
            then (wheels ?s ! k)\<lparr>isBlownAway := True, innerAlpha := 0\<rparr>
            else wheels ?s ! k)"
    using d by blast
  have w0: "isBlownAway (wheels five_clicked ! 0)"
    using w[rule_format, of 0] by (simp add: five_wheels_wheels)
  have w2: "isBlownAway (wheels five_clicked ! 2)"
    using w[rule_format, of 2] by (simp add: five_wheels_wheels)
  have w4: "isBlownAway (wheels five_clicked ! 4) \<and> innerAlpha (wheels five_clicked ! 4) = 0"
    using w[rule_format, of 4] by (simp add: five_wheels_wheels)
  have w1: "\<not> isBlownAway (wheels five_clicked ! 1)"
    using w[rule_format, of 1] by (simp add: five_wheels_wheels)
  have w3: "\<not> isBlownAway (wheels five_clicked ! 3)"
    using w[rule_format, of 3] by (simp add: five_wheels_wheels)
  show ?thesis
    using h l w0 w1 w2 w3 w4 five_wheels_hit(2) by (simp add: initializeArtwork_def)
qed

text \<open>
  Claim C4, as stated, fails: a click on a point whose topmost wheel is already dispersed
  is not always ignored, because the loop of \<open>mousePressed\<close> skips dispersed wheels and
  goes on to the wheels below. After one click at (285, 200) on the two overlapping wheels
  the upper wheel (index 1) is dispersed and still contains the point; a second click at
  the same point disperses the lower wheel and pushes a second batch.
\<close>

theorem mousePressed_dispersed_hit_counterexample:
  "contains (wheels overlapping_clicked ! 1) 285 200
   \<and> isBlownAway (wheels overlapping_clicked ! 1)
   \<and> blownAwayHistory overlapping_clicked = [[1]]
   \<and> blownAwayHistory (mousePressed overlapping_clicked 285 200 zero_draws) = [[1], [0]]
   \<and> isBlownAway (wheels (mousePressed overlapping_clicked 285 200 zero_draws) ! 0)
   \<and> length (dandelionParticles overlapping_clicked) = 64
   \<and> length (dandelionParticles (mousePressed overlapping_clicked 285 200 zero_draws)) = 128
   \<and> mousePressed overlapping_clicked 285 200 zero_draws \<noteq> overlapping_clicked"
proof -
  let ?s = "overlapping_clicked"
  note st = overlapping_first_click
  have i: "0 < length (wheels ?s)" by (simp add: st)
  have c: "contains (wheels ?s ! 0) 285 200" by (simp add: st contains_iff)
  have b: "\<not> isBlownAway (wheels ?s ! 0)" by (simp add: st)
  have t: "\<forall>j. 0 < j \<and> j < length (wheels ?s) \<longrightarrow>
        \<not> (contains (wheels ?s ! j) 285 200 \<and> \<not> isBlownAway (wheels ?s ! j))"
    by (auto simp add: st less_Suc_eq)
  have w: "wheelsToBlow (wheels ?s) (colorAt (colors (wheels ?s ! 0)) 0) = [0]"
    by (simp add: st wheelsToBlow_def base_colors upt_rec[of 0] upt_rec[of 1])
  have h2: "blownAwayHistory (mousePressed ?s 285 200 zero_draws) = [[1], [0]]"
    using mousePressed_hit_history[OF i c b t, of zero_draws] unfolding w by (simp add: st)
  have w2: "isBlownAway (wheels (mousePressed ?s 285 200 zero_draws) ! 0)"
    using mousePressed_hit_wheels[OF i c b t, of zero_draws] unfolding w
    by (simp add: st mark_def)
  have l2: "length (dandelionParticles (mousePressed ?s 285 200 zero_draws)) = 128"
    using mousePressed_hit_particles_length[OF i c b t, of zero_draws] unfolding w
    by (simp add: st)
  have c1: "contains (wheels ?s ! 1) 285 200" by (simp add: st contains_iff)
  have b1: "isBlownAway (wheels ?s ! 1)" by (simp add: st)
  have ne: "mousePressed ?s 285 200 zero_draws \<noteq> ?s"
    using h2 st(1) by auto
  show ?thesis using c1 b1 st(1) h2 w2 st(3) l2 ne by blast
qed

text \<open>
  Claim C4, amended. A click at a point that no intact wheel contains (no wheel contains it,
  or every wheel containing it is already dispersed) leaves the wheels, the particles and
  the history unchanged.
\<close>

theorem mousePressed_without_intact_hit:
  assumes "\<forall>i<length (wheels s).
             \<not> (contains (wheels s ! i) mouseX mouseY \<and> \<not> isBlownAway (wheels s ! i))"
  shows "mousePressed s mouseX mouseY rnd = s"
  using assms by (rule mousePressed_no_hit)

text \<open>Two instances: a click outside every wheel, and a click at (400, 200), which only
  the dispersed upper wheel of the two overlapping wheels contains.\<close>

theorem mousePressed_without_intact_hit_witness:
  "\<not> contains (wheels (initializeArtwork one_wheel) ! 0) 0 0
   \<and> mousePressed (initializeArtwork one_wheel) 0 0 zero_draws = initializeArtwork one_wheel
   \<and> contains (wheels overlapping_clicked ! 1) 400 200
   \<and> isBlownAway (wheels overlapping_clicked ! 1)
   \<and> \<not> contains (wheels overlapping_clicked ! 0) 400 200
   \<and> mousePressed overlapping_clicked 400 200 zero_draws = overlapping_clicked"
proof -
  have a: "\<not> contains (wheels (initializeArtwork one_wheel) ! 0) 0 0"
    by (simp add: one_wheel_wheels contains_iff)
  then have "\<forall>i<length (wheels (initializeArtwork one_wheel)).
       \<not> (contains (wheels (initializeArtwork one_wheel) ! i) 0 0
          \<and> \<not> isBlownAway (wheels (initializeArtwork one_wheel) ! i))"
    by (simp add: one_wheel_wheels)
  then have 1: "mousePressed (initializeArtwork one_wheel) 0 0 zero_draws = initializeArtwork one_wheel"
    by (rule mousePressed_without_intact_hit)
  note st = overlapping_first_click
  have c1: "contains (wheels overlapping_clicked ! 1) 400 200" by (simp add: st contains_iff)
  have b1: "isBlownAway (wheels overlapping_clicked ! 1)" by (simp add: st)
  have c0: "\<not> contains (wheels overlapping_clicked ! 0) 400 200" by (simp add: st contains_iff)
  have "\<forall>i<length (wheels overlapping_clicked).
       \<not> (contains (wheels overlapping_clicked ! i) 400 200
          \<and> \<not> isBlownAway (wheels overlapping_clicked ! i))"
    using c0 b1 by (auto simp add: st less_Suc_eq)
  then have 2: "mousePressed overlapping_clicked 400 200 zero_draws = overlapping_clicked"
    by (rule mousePressed_without_intact_hit)
  show ?thesis using a 1 c1 b1 c0 2 by blast
qed

section \<open>Restoration (claim C3)\<close>

text \<open>
  Claim C3. On the restore key (key code 32) with a non-empty history, exactly the last
  batch is popped; every wheel of that batch ends with \<open>isBlownAway = false\<close> and
  \<open>innerAlpha = 0\<close>, its other fields as before, and every other wheel is unchanged. With an
  empty history the whole state (wheels, particles, history) is unchanged, as it is for
  every other key.
\<close>

theorem keyPressed_restoration:
  "(blownAwayHistory s \<noteq> [] \<longrightarrow>
      blownAwayHistory (keyPressed s 32) = butlast (blownAwayHistory s) \<and>
      length (wheels (keyPressed s 32)) = length (wheels s) \<and>
      (\<forall>k<length (wheels s).
         wheels (keyPressed s 32) ! k =
           (if k \<in> set (last (blownAwayHistory s))
            then (wheels s ! k)\<lparr>isBlownAway := False, innerAlpha := 0\<rparr>
            else wheels s ! k)))
   \<and> (blownAwayHistory s = [] \<longrightarrow> keyPressed s 32 = s)
   \<and> (keyCode \<noteq> 32 \<longrightarrow> keyPressed s keyCode = s)"
proof (intro conjI impI allI)
  assume ne: "blownAwayHistory s \<noteq> []"
  let ?s1 = "s\<lparr>blownAwayHistory := butlast (blownAwayHistory s)\<rparr>"
  have kp: "keyPressed s 32 = fold restore_one (last (blownAwayHistory s)) ?s1"
    using ne by (simp add: keyPressed_def Let_def)
  show "blownAwayHistory (keyPressed s 32) = butlast (blownAwayHistory s)"
    by (simp add: kp restore_fold_history)
  show "length (wheels (keyPressed s 32)) = length (wheels s)"
    by (simp add: kp restore_fold_wheels)
  fix k assume k: "k < length (wheels s)"
  show "wheels (keyPressed s 32) ! k =
           (if k \<in> set (last (blownAwayHistory s))
            then (wheels s ! k)\<lparr>isBlownAway := False, innerAlpha := 0\<rparr>
            else wheels s ! k)"
    using mark_nth[of restoreWheel k "wheels s" "last (blownAwayHistory s)", OF restoreWheel_idem k]
    by (simp add: kp restore_fold_wheels restoreWheel_def)
next
  assume "blownAwayHistory s = []"
  then show "keyPressed s 32 = s" by (simp add: keyPressed_def)
next
  assume "keyCode \<noteq> 32"
  then show "keyPressed s keyCode = s" by (simp add: keyPressed_def)
qed

text \<open>
  After the click on the first of the five wheels the history holds the batch of wheels
  0, 2 and 4; the restore key pops it, wheel 4 is intact again with fade 0 and wheel 1 is
  as it was. On the fresh artwork the history is empty and the key changes nothing, and
  another key (65) changes nothing after the click.
\<close>

theorem keyPressed_restoration_witness:
  "blownAwayHistory five_clicked \<noteq> []
   \<and> blownAwayHistory (keyPressed five_clicked 32) = []
   \<and> isBlownAway (wheels five_clicked ! 4)
   \<and> \<not> isBlownAway (wheels (keyPressed five_clicked 32) ! 4)
   \<and> innerAlpha (wheels (keyPressed five_clicked 32) ! 4) = 0
   \<and> wheels (keyPressed five_clicked 32) ! 1 = wheels five_clicked ! 1
   \<and> blownAwayHistory (initializeArtwork five_wheels) = []
   \<and> keyPressed (initializeArtwork five_wheels) 32 = initializeArtwork five_wheels
   \<and> (65::int) \<noteq> 32
   \<and> keyPressed five_clicked 65 = five_clicked"
proof -
  note st = five_clicked_state
  have ne: "blownAwayHistory five_clicked \<noteq> []" by (simp add: st)
  note r = keyPressed_restoration[of five_clicked 65]
  have h: "blownAwayHistory (keyPressed five_clicked 32) = butlast (blownAwayHistory five_clicked)"
    using r ne by blast
  have w: "\<forall>k<length (wheels five_clicked).
         wheels (keyPressed five_clicked 32) ! k =
           (if k \<in> set (last (blownAwayHistory five_clicked))
            then (wheels five_clicked ! k)\<lparr>isBlownAway := False, innerAlpha := 0\<rparr>
            else wheels five_clicked ! k)"
    using r ne by blast
  have w4: "\<not> isBlownAway (wheels (keyPressed five_clicked 32) ! 4)
            \<and> innerAlpha (wheels (keyPressed five_clicked 32) ! 4) = 0"
    using w[rule_format, of 4] by (simp add: st)
  have w1: "wheels (keyPressed five_clicked 32) ! 1 = wheels five_clicked ! 1"
    using w[rule_format, of 1] by (simp add: st)
  have b4: "isBlownAway (wheels five_clicked ! 4)" by (simp add: st)
  have e: "blownAwayHistory (initializeArtwork five_wheels) = []"
    by (simp add: initializeArtwork_def)
  have n: "keyPressed (initializeArtwork five_wheels) 32 = initializeArtwork five_wheels"
    using keyPressed_restoration[of "initializeArtwork five_wheels" 32] e by blast
  have o: "keyPressed five_clicked 65 = five_clicked"
    using r by simp
  show ?thesis using ne h w4 w1 b4 e n o by (simp add: st)
qed

section \<open>The undo history (claim C10)\<close>

text \<open>The dispersal body starts from the state with the batch already pushed.\<close>

lemma blow_from_pushed:
  "blow_from s i rnd =
     (if length (wheelsToBlow (wheels s) (colorAt (colors (wheels s ! i)) 0)) > 0
      then fst (fold (blow_one rnd) (wheelsToBlow (wheels s) (colorAt (colors (wheels s ! i)) 0))
                  (pushed s i, 0))
      else s)"
  by (simp add: blow_from_def pushed_def Let_def)

text \<open>
  Claim C10, as stated, fails: it does not hold at every point in execution. \<open>mousePressed\<close>
  pushes the new batch onto the history before its loop sets \<open>isBlownAway\<close> on the wheels of
  the batch. The click on the first of the five wheels passes through the state \<open>pushed\<close>,
  in which the batch \<open>[0, 2, 4]\<close> is on the history while wheel 0 of that batch is not yet
  blown away; the loop over the batch then leads from that state to the state after the
  click.
\<close>

theorem history_mid_handler_counterexample:
  "mousePressed (initializeArtwork five_wheels) 100 100 zero_draws
     = blow_from (initializeArtwork five_wheels) 0 zero_draws
   \<and> blow_from (initializeArtwork five_wheels) 0 zero_draws
     = fst (fold (blow_one zero_draws) [0, 2, 4] (pushed (initializeArtwork five_wheels) 0, 0))
   \<and> blownAwayHistory (pushed (initializeArtwork five_wheels) 0) = [[0, 2, 4]]
   \<and> 0 \<in> set (blownAwayHistory (pushed (initializeArtwork five_wheels) 0) ! 0)
   \<and> \<not> isBlownAway (wheels (pushed (initializeArtwork five_wheels) 0) ! 0)"
proof -
  let ?s = "initializeArtwork five_wheels"
  have 1: "mousePressed ?s 100 100 zero_draws = blow_from ?s 0 zero_draws"
    unfolding mousePressed_def by (rule mousePressed_loop_hit[OF five_wheels_hit])
  have 2: "blow_from ?s 0 zero_draws = fst (fold (blow_one zero_draws) [0, 2, 4] (pushed ?s 0, 0))"
    unfolding blow_from_pushed five_wheels_affected by simp
  have 3: "blownAwayHistory (pushed ?s 0) = [[0, 2, 4]]"
    unfolding pushed_def five_wheels_affected by (simp add: initializeArtwork_def)
  have 4: "\<not> isBlownAway (wheels (pushed ?s 0) ! 0)"
    by (simp add: pushed_def five_wheels_wheels)
  show ?thesis using 1 2 3 4 by simp
qed

text \<open>
  Claim C10, amended. Between event handlers, that is after \<open>setup\<close> and any sequence of
  completed frames, clicks, key presses and resizes, every wheel referred to by a batch on
  the history is blown away, and the batches are pairwise disjoint (and free of
  repetitions). The mechanism: a click leaves the history alone or pushes one batch of
  wheels that were not blown away; a frame or a click never clears the flag of a wheel; a
  key press clears it only for wheels of the last batch, which it pops.
\<close>

theorem history_batches_dispersed_and_disjoint:
  assumes s: "s = run placed evs" and h: "h = blownAwayHistory s"
  shows "(\<forall>b \<in> set h. \<forall>k \<in> set b. k < length (wheels s) \<and> isBlownAway (wheels s ! k))
    \<and> (\<forall>a<length h. \<forall>b<length h. a \<noteq> b \<longrightarrow> set (h ! a) \<inter> set (h ! b) = {})
    \<and> (\<forall>b \<in> set h. distinct b)
    \<and> (\<forall>mx my rnd.
          blownAwayHistory (mousePressed s mx my rnd) = h
          \<or> (\<exists>b. blownAwayHistory (mousePressed s mx my rnd) = h @ [b]
                \<and> (\<forall>k \<in> set b. k < length (wheels s) \<and> \<not> isBlownAway (wheels s ! k))))
    \<and> (\<forall>k<length (wheels s). isBlownAway (wheels s ! k) \<longrightarrow>
          isBlownAway (wheels (draw s) ! k)
          \<and> (\<forall>mx my rnd. isBlownAway (wheels (mousePressed s mx my rnd) ! k))
          \<and> (\<forall>keyCode. \<not> isBlownAway (wheels (keyPressed s keyCode) ! k) \<longrightarrow>
                keyCode = 32 \<and> h \<noteq> [] \<and> k \<in> set (last h)
                \<and> blownAwayHistory (keyPressed s keyCode) = butlast h))"
proof -
  have ok: "history_ok s" unfolding s by (rule history_ok_run)
  have 1: "\<forall>b \<in> set h. \<forall>k \<in> set b. k < length (wheels s) \<and> isBlownAway (wheels s ! k)"
    using ok by (simp add: history_ok_def h)
  have dc: "distinct (concat h)" using ok by (simp add: history_ok_def h)
  have 2: "\<forall>a<length h. \<forall>b<length h. a \<noteq> b \<longrightarrow> set (h ! a) \<inter> set (h ! b) = {}"
    using distinct_concat_disjoint[OF dc] by blast
  have 3: "\<forall>b \<in> set h. distinct b"
    using dc by (simp add: distinct_concat_iff)
  have 4: "blownAwayHistory (mousePressed s mx my rnd) = h
          \<or> (\<exists>b. blownAwayHistory (mousePressed s mx my rnd) = h @ [b]
                \<and> (\<forall>k \<in> set b. k < length (wheels s) \<and> \<not> isBlownAway (wheels s ! k)))"
    for mx my rnd
    using mousePressed_cases[of s mx my rnd]
  proof
    assume "mousePressed s mx my rnd = s"
    then show ?thesis by (simp add: h)
  next
    assume "\<exists>i<length (wheels s). \<not> isBlownAway (wheels s ! i) \<and>
      mousePressed s mx my rnd =
        fst (fold (blow_one rnd) (wheelsToBlow (wheels s) (colorAt (colors (wheels s ! i)) 0))
          (s\<lparr>blownAwayHistory := blownAwayHistory s
               @ [wheelsToBlow (wheels s) (colorAt (colors (wheels s ! i)) 0)]\<rparr>, 0))"
    then obtain c where
      "blownAwayHistory (mousePressed s mx my rnd) = h @ [wheelsToBlow (wheels s) c]"
      by (auto simp add: blow_fold_history h)
    moreover have "\<forall>k \<in> set (wheelsToBlow (wheels s) c).
        k < length (wheels s) \<and> \<not> isBlownAway (wheels s ! k)"
      by (simp add: wheelsToBlow_set)
    ultimately show ?thesis by blast
  qed
  have 5: "isBlownAway (wheels (draw s) ! k)
          \<and> (\<forall>mx my rnd. isBlownAway (wheels (mousePressed s mx my rnd) ! k))
          \<and> (\<forall>keyCode. \<not> isBlownAway (wheels (keyPressed s keyCode) ! k) \<longrightarrow>
                keyCode = 32 \<and> h \<noteq> [] \<and> k \<in> set (last h)
                \<and> blownAwayHistory (keyPressed s keyCode) = butlast h)"
    if k: "k < length (wheels s)" and b: "isBlownAway (wheels s ! k)" for k
  proof (intro conjI allI impI)
    show "isBlownAway (wheels (draw s) ! k)"
      using k b by (simp add: draw_wheels updateAlpha_def)
  next
    fix mx my rnd
    from mousePressed_wheels[of s mx my rnd]
    obtain ks where "wheels (mousePressed s mx my rnd) = mark blowAway ks (wheels s)" ..
    then show "isBlownAway (wheels (mousePressed s mx my rnd) ! k)"
      using b mark_nth[of blowAway k "wheels s" ks, OF blowAway_idem k] by auto
  next
    fix keyCode
    assume n: "\<not> isBlownAway (wheels (keyPressed s keyCode) ! k)"
    then have ne: "keyPressed s keyCode \<noteq> s" using b by auto
    then have c: "keyCode = 32" and hne: "h \<noteq> []"
      by (auto simp add: keyPressed_def h split: if_splits)
    have kp: "keyPressed s keyCode =
        fold restore_one (last h) (s\<lparr>blownAwayHistory := butlast h\<rparr>)"
      using keyPressed_cases[of s keyCode] ne by (simp add: h)
    have w: "wheels (keyPressed s keyCode) ! k =
        (if k \<in> set (last h) then restoreWheel (wheels s ! k) else wheels s ! k)"
      using mark_nth[of restoreWheel k "wheels s" "last h", OF restoreWheel_idem k]
      by (simp add: kp restore_fold_wheels)
    have m: "k \<in> set (last h)" using n b w by (auto split: if_splits)
    have p: "blownAwayHistory (keyPressed s keyCode) = butlast h"
      by (simp add: kp restore_fold_history)
    show "keyCode = 32" by (rule c)
    show "h \<noteq> []" by (rule hne)
    show "k \<in> set (last h)" by (rule m)
    show "blownAwayHistory (keyPressed s keyCode) = butlast h" by (rule p)
  qed
  show ?thesis using 1 2 3 4 5 by blast
qed

text \<open>
  After the clicks on the first and on the second of the five wheels the history holds the
  two disjoint batches \<open>[0, 2, 4]\<close> and \<open>[1, 3]\<close>, and wheel 3 of the second batch is blown
  away.
\<close>

theorem history_batches_dispersed_and_disjoint_witness:
  "blownAwayHistory five_clicked_twice = [[0, 2, 4], [1, 3]]
   \<and> [1, 3] \<in> set (blownAwayHistory five_clicked_twice)
   \<and> 3 \<in> set [1, 3 :: nat]
   \<and> isBlownAway (wheels five_clicked_twice ! 3)
   \<and> set (blownAwayHistory five_clicked_twice ! 0) \<inter> set (blownAwayHistory five_clicked_twice ! 1) = {}"
proof -
  note st = five_clicked_twice_state
  note t = history_batches_dispersed_and_disjoint[OF five_clicked_twice_run refl]
  have m: "[1, 3] \<in> set (blownAwayHistory five_clicked_twice)" by (simp add: st)
  have "\<forall>b \<in> set (blownAwayHistory five_clicked_twice). \<forall>k \<in> set b.
      k < length (wheels five_clicked_twice) \<and> isBlownAway (wheels five_clicked_twice ! k)"
    using t by blast
  then have b3: "isBlownAway (wheels five_clicked_twice ! 3)"
    using m by fastforce
  have "\<forall>a<length (blownAwayHistory five_clicked_twice).
      \<forall>b<length (blownAwayHistory five_clicked_twice). a \<noteq> b \<longrightarrow>
      set (blownAwayHistory five_clicked_twice ! a) \<inter> set (blownAwayHistory five_clicked_twice ! b) = {}"
    using t by blast
  then have d: "set (blownAwayHistory five_clicked_twice ! 0)
      \<inter> set (blownAwayHistory five_clicked_twice ! 1) = {}"
    by (simp add: st)
  show ?thesis using st(1) m b3 d by simp
qed

section \<open>The opacity of a particle (claims C5, C9)\<close>

text \<open>
  Claim C5, as stated, fails: \<open>update\<close> does not clamp \<open>alpha\<close>. A drifting particle loses 2
  per frame from 255, so after 127 frames it is live with \<open>alpha = 1\<close>, and the \<open>update\<close> of
  the next frame sets \<open>alpha = -1\<close>, outside \<open>[0, 255]\<close>; the particle is drawn with that value
  and removed later in the same pass.
\<close>

theorem update_alpha_unclamped_counterexample:
  "dandelionParticles faded_scene \<noteq> []
   \<and> \<not> isReturning (dandelionParticles faded_scene ! 0)
   \<and> alpha (dandelionParticles faded_scene ! 0) = 1
   \<and> alpha (update (dandelionParticles faded_scene ! 0)) = - 1
   \<and> \<not> (0 \<le> alpha (update (dandelionParticles faded_scene ! 0)))"
proof -
  let ?w = "blowAway (Wheel 200 200 100 (colorPalettes ! 0) 0)"
  let ?p = "spoke_particle ?w zero_draws 0 0"
  have n: "2 * real (127::nat) < 255" by simp
  have ne: "dandelionParticles faded_scene \<noteq> []"
    unfolding faded_scene_def one_wheel_drift(3)[OF n]
    by (simp add: spoke_particles_def spokeCount_def)
  have p: "dandelionParticles faded_scene ! 0 = (update ^^ 127) ?p"
    unfolding faded_scene_def by (rule one_wheel_drift_first[OF n])
  have d: "\<not> isReturning ?p" by (simp add: first_spoke_fields)
  have a: "alpha ((update ^^ 127) ?p) = 1"
    using funpow_update_drift[OF d, of 127] by (simp add: first_spoke_fields)
  have r: "\<not> isReturning ((update ^^ 127) ?p)" using d by simp
  have u: "alpha (update ((update ^^ 127) ?p)) = - 1"
    using a r by (simp add: update_alpha)
  show ?thesis using ne r a u by (simp add: p)
qed

text \<open>
  Claim C5, amended. After \<open>setup\<close> and any sequence of events, every particle in the live
  collection has \<open>alpha\<close> in \<open>(0, 255]\<close>, hence in \<open>[0, 255]\<close>; and while it is not returning,
  \<open>update\<close> lowers its \<open>alpha\<close> by exactly 2 (so never raises it), to a value above \<open>-2\<close> that
  is not clamped.
\<close>

theorem live_particle_alpha:
  assumes "p \<in> set (dandelionParticles (run placed evs))"
  shows "0 \<le> alpha p \<and> 0 < alpha p \<and> alpha p \<le> 255
    \<and> (\<not> isReturning p \<longrightarrow>
          alpha (update p) = alpha p - 2 \<and> alpha (update p) \<le> alpha p \<and> - 2 < alpha (update p))"
proof -
  have "particle_ok p"
    using particles_ok_run[of placed evs] assms by (simp add: list_all_iff)
  then show ?thesis by (simp add: particle_ok_def update_alpha)
qed

text \<open>The first particle after the click on the single wheel: opaque, and 253 after one
  update.\<close>

theorem live_particle_alpha_witness:
  "dandelionParticles one_clicked ! 0
     \<in> set (dandelionParticles (run one_wheel [MousePressed 200 200 zero_draws]))
   \<and> \<not> isReturning (dandelionParticles one_clicked ! 0)
   \<and> alpha (dandelionParticles one_clicked ! 0) = 255
   \<and> alpha (update (dandelionParticles one_clicked ! 0)) = 253"
proof -
  let ?p = "dandelionParticles one_clicked ! 0"
  have m: "?p \<in> set (dandelionParticles (run one_wheel [MousePressed 200 200 zero_draws]))"
    unfolding one_clicked_run[symmetric] using one_clicked_first(1) by simp
  have r: "\<not> isReturning ?p" by (simp add: one_clicked_first(2) first_spoke_fields)
  have a: "alpha ?p = 255" by (simp add: one_clicked_first(2) first_spoke_fields)
  have "alpha (update ?p) = alpha ?p - 2" using live_particle_alpha[OF m] r by blast
  then show ?thesis using m r a by simp
qed

text \<open>
  Claim C9. With exact arithmetic and the constructor's \<open>returnSpeed = 0.05\<close>, \<open>update\<close>
  multiplies the \<open>alpha\<close> of a returning particle by \<open>1 - 2 * returnSpeed = 0.9\<close>. So a returning
  particle with positive \<open>alpha\<close> has positive \<open>alpha\<close> after any number of updates, neither
  removal test of \<open>draw\<close> ever holds for it, and it stays in the live collection through any
  number of frames.
\<close>

theorem returning_particle_never_reaped:
  assumes ret: "isReturning p" and rs: "returnSpeed p = 0.05" and pos: "0 < alpha p"
  shows "alpha (update p) = (1 - 2 * returnSpeed p) * alpha p
    \<and> 1 - 2 * returnSpeed p = 0.9
    \<and> (\<forall>n. isReturning ((update ^^ n) p)
            \<and> alpha ((update ^^ n) p) = 0.9 ^ n * alpha p
            \<and> 0 < alpha ((update ^^ n) p)
            \<and> \<not> (isReturning ((update ^^ n) p)
                  \<and> p5_dist (partX ((update ^^ n) p)) (partY ((update ^^ n) p))
                        (targetX ((update ^^ n) p)) (targetY ((update ^^ n) p)) < 1
                  \<and> alpha ((update ^^ n) p) \<le> 0)
            \<and> \<not> (alpha ((update ^^ n) p) \<le> 0 \<and> \<not> isReturning ((update ^^ n) p)))
    \<and> (\<forall>s n. p \<in> set (dandelionParticles s) \<longrightarrow>
            (update ^^ n) p \<in> set (dandelionParticles ((draw ^^ n) s)))"
proof -
  have f: "1 - 2 * returnSpeed p = 0.9" using rs by simp
  have a: "alpha ((update ^^ n) p) = 0.9 ^ n * alpha p" for n
    using funpow_update_return[OF ret, of n] f by simp
  have g: "0 < alpha ((update ^^ n) p)" for n
    using pos by (simp add: a)
  have live: "(update ^^ n) p \<in> set (dandelionParticles ((draw ^^ n) s))"
    if "p \<in> set (dandelionParticles s)" for s n
  proof (induction n)
    case 0
    show ?case using that by simp
  next
    case (Suc n)
    have "\<not> reaped (update ((update ^^ n) p))"
      using g[of "Suc n"] by (simp add: reaped_def)
    then show ?case using Suc by (simp add: draw_particles)
  qed
  show ?thesis
    using ret f a g live by (simp add: update_alpha not_le)
qed

text \<open>The first particle of the single wheel after a click and the restore key: it is
  returning with \<open>alpha = 255\<close>; one update gives 229.5, two give 206.55, and it is still
  live after the next frame.\<close>

theorem returning_particle_never_reaped_witness:
  "isReturning (dandelionParticles (keyPressed one_clicked 32) ! 0)
   \<and> returnSpeed (dandelionParticles (keyPressed one_clicked 32) ! 0) = 0.05
   \<and> 0 < alpha (dandelionParticles (keyPressed one_clicked 32) ! 0)
   \<and> alpha (update (dandelionParticles (keyPressed one_clicked 32) ! 0)) = 229.5
   \<and> alpha ((update ^^ 2) (dandelionParticles (keyPressed one_clicked 32) ! 0)) = 206.55
   \<and> dandelionParticles (keyPressed one_clicked 32) ! 0
        \<in> set (dandelionParticles (keyPressed one_clicked 32))
   \<and> update (dandelionParticles (keyPressed one_clicked 32) ! 0)
        \<in> set (dandelionParticles (draw (keyPressed one_clicked 32)))"
proof -
  let ?s = "keyPressed one_clicked 32"
  let ?p = "dandelionParticles ?s ! 0"
  have ret: "isReturning ?p" by (simp add: one_clicked_restored_first)
  have rs: "returnSpeed ?p = 0.05" by (simp add: one_clicked_restored_first first_spoke_fields)
  have al: "alpha ?p = 255" by (simp add: one_clicked_restored_first first_spoke_fields)
  then have pos: "0 < alpha ?p" by simp
  note t = returning_particle_never_reaped[OF ret rs pos]
  have u1: "alpha (update ?p) = 229.5" using t al rs by simp
  have "alpha ((update ^^ 2) ?p) = 0.9 ^ 2 * alpha ?p" using t by blast
  then have u2: "alpha ((update ^^ 2) ?p) = 206.55" using al by (simp add: power2_eq_square)
  have "0 < length (dandelionParticles one_clicked)" using one_clicked_first(1) by simp
  then have m: "?p \<in> set (dandelionParticles ?s)"
    by (simp add: keyPressed_particles_length)
  have "(update ^^ 1) ?p \<in> set (dandelionParticles ((draw ^^ 1) ?s))"
    using t m by blast
  then have l: "update ?p \<in> set (dandelionParticles (draw ?s))" by simp
  show ?thesis using ret rs pos u1 u2 m l by blast
qed

section \<open>Spawned particles (claim C6)\<close>

text \<open>
  Claim C6, as stated, fails in one point: the initial velocity is not biased outwards.
  Its direction is drawn by the constructor without regard to the position of the
  particle on the ring. The first spoke particle of the single wheel starts at (280, 200),
  to the right of the centre (200, 200), and its velocity points to the left: the
  component along the outward direction is negative.
\<close>

theorem velocity_not_outward_counterexample:
  "wheelX (wheels one_clicked ! 0) = 200
   \<and> wheelY (wheels one_clicked ! 0) = 200
   \<and> partX (dandelionParticles one_clicked ! 0) = 280
   \<and> partY (dandelionParticles one_clicked ! 0) = 200
   \<and> velX (dandelionParticles one_clicked ! 0) < 0
   \<and> (partX (dandelionParticles one_clicked ! 0) - wheelX (wheels one_clicked ! 0))
        * velX (dandelionParticles one_clicked ! 0)
      + (partY (dandelionParticles one_clicked ! 0) - wheelY (wheels one_clicked ! 0))
        * velY (dandelionParticles one_clicked ! 0) < 0"
proof -
  let ?w = "blowAway (Wheel 200 200 100 (colorPalettes ! 0) 0)"
  let ?p = "dandelionParticles one_clicked ! 0"
  have p: "?p = spoke_particle ?w zero_draws 0 0" by (rule one_clicked_first(2))
  have w: "wheels one_clicked = [?w]" by (simp add: one_clicked_def one_wheel_click)
  have x: "partX ?p = 280" and y: "partY ?p = 200"
    by (simp_all add: p first_spoke_fields)
  have "velX (spoke_particle ?w zero_draws 0 0)
      = - cos (pi / 4 + zero_draws 0 * (pi / 4)) * (1 + 2 * zero_draws (0 + 1))"
    by (rule new_particle_velocity(1)[OF spoke_particle_eq])
  then have "velX ?p = - (sqrt 2 / 2)" unfolding p by (simp add: zero_draws_def cos_45)
  then have v: "velX ?p < 0" by simp
  have "(280 - 200) * velX ?p + (200 - 200) * velY ?p < 0" using v by simp
  then show ?thesis using x y v by (simp add: w)
qed

text \<open>
  Claim C6, amended. The particles appended by a dispersal are, for each affected wheel in
  turn, 24 spoke particles at the positions of the ring at 0.8 of the radius, each with
  its angle as rotation, and then 40 outer-dot particles at the positions of the ring at
  0.9 of the radius. The origin and the return target of each equal its position. The
  \<open>n\<close>-th of them takes the five draws \<open>5 n\<close>, ..., \<open>5 n + 4\<close> of its own: its speed is one plus
  twice the second draw, in \<open>[1, 3]\<close>; the horizontal component of its velocity is given by
  the first and second draw alone, whatever its position on the ring, and points to the
  left; its rotation speed and its two wind components are affine in the third, fourth
  and fifth draw, in \<open>[-0.05, 0.05]\<close>, \<open>[-0.2, -0.05]\<close> and \<open>[0.05, 0.2]\<close>. (On the sign of the
  vertical component of the velocity the constructor's comment and its angle range
  disagree; the statement leaves it open.)
\<close>

theorem spawned_particles:
  assumes i: "i < length (wheels s)"
    and hit: "contains (wheels s ! i) mouseX mouseY" "\<not> isBlownAway (wheels s ! i)"
    and top: "\<forall>j. i < j \<and> j < length (wheels s) \<longrightarrow>
                \<not> (contains (wheels s ! j) mouseX mouseY \<and> \<not> isBlownAway (wheels s ! j))"
    and aff: "affected = wheelsToBlow (wheels s) (colorAt (colors (wheels s ! i)) 0)"
    and draws: "\<forall>c. 0 \<le> rnd c \<and> rnd c < 1"
    and n: "n < length affected * 64"
    and q: "q = dandelionParticles (mousePressed s mouseX mouseY rnd)
                  ! (length (dandelionParticles s) + n)"
    and w: "w = wheels s ! (affected ! (n div 64))"
  shows "affected ! (n div 64) \<in> set affected
    \<and> (n mod 64 < 24 \<longrightarrow>
          ptype q = ''spoke''
          \<and> partX q = wheelX w + cos (2 * pi * real (n mod 64) / 24) * (radius w * 0.8)
          \<and> partY q = wheelY w + sin (2 * pi * real (n mod 64) / 24) * (radius w * 0.8)
          \<and> rotation q = 2 * pi * real (n mod 64) / 24)
    \<and> (24 \<le> n mod 64 \<longrightarrow>
          ptype q = ''outerDot''
          \<and> partX q = wheelX w + cos (2 * pi * real (n mod 64 - 24) / 40) * (radius w * 0.9)
          \<and> partY q = wheelY w + sin (2 * pi * real (n mod 64 - 24) / 40) * (radius w * 0.9)
          \<and> rotation q = 0)
    \<and> originalX q = partX q \<and> originalY q = partY q
    \<and> targetX q = partX q \<and> targetY q = partY q
    \<and> alpha q = 255 \<and> \<not> isReturning q
    \<and> (velX q)\<^sup>2 + (velY q)\<^sup>2 = (1 + 2 * rnd (5 * n + 1))\<^sup>2
    \<and> 1 \<le> 1 + 2 * rnd (5 * n + 1) \<and> 1 + 2 * rnd (5 * n + 1) \<le> 3
    \<and> velX q = - cos (pi / 4 + rnd (5 * n) * (pi / 4)) * (1 + 2 * rnd (5 * n + 1))
    \<and> velX q \<le> 0
    \<and> rotationSpeed q = rnd (5 * n + 2) / 10 - 0.05
    \<and> - 0.05 \<le> rotationSpeed q \<and> rotationSpeed q \<le> 0.05
    \<and> windX q = 0.15 * rnd (5 * n + 3) - 0.2
    \<and> - 0.2 \<le> windX q \<and> windX q \<le> - 0.05
    \<and> windY q = 0.05 + 0.15 * rnd (5 * n + 4)
    \<and> 0.05 \<le> windY q \<and> windY q \<le> 0.2"
proof -
  let ?s0 = "s\<lparr>blownAwayHistory := blownAwayHistory s @ [affected]\<rparr>"
  let ?a = "n div 64"
  let ?m = "n mod 64"
  have e: "mousePressed s mouseX mouseY rnd = fst (fold (blow_one rnd) affected (?s0, 0))"
    unfolding aff by (rule mousePressed_hit_eq[OF i hit top])
  have v: "\<forall>k \<in> set affected. k < length (wheels (fst (?s0, 0::nat)))"
    by (simp add: aff wheelsToBlow_set)
  have a: "?a < length affected" using n by (simp add: less_mult_imp_div_less)
  have m: "?m < 64" by simp
  have idx: "length (dandelionParticles (fst (?s0, 0::nat))) + 64 * ?a + ?m
      = length (dandelionParticles s) + n"
    by simp
  have cnt: "snd (?s0, 0::nat) + 320 * ?a + 5 * ?m = 5 * n"
  proof -
    have "64 * ?a + ?m = n" by simp
    then have "5 * (64 * ?a + ?m) = 5 * n" by (rule arg_cong)
    then have "320 * ?a + 5 * ?m = 5 * n" by (simp only: distrib_left mult.assoc[symmetric])
    then show ?thesis by simp
  qed
  have qe: "q = (if ?m < 24 then spoke_particle w rnd (5 * n) ?m
                 else dot_particle w rnd (5 * n) (?m - 24))"
    using blow_fold_new_nth[OF v a m, of rnd] unfolding idx cnt q e w by simp
  have mem: "affected ! ?a \<in> set affected" using a by simp
  have d: "0 \<le> rnd c" "rnd c < 1" for c using draws by simp_all
  have common: "originalX q = partX q \<and> originalY q = partY q
    \<and> targetX q = partX q \<and> targetY q = partY q
    \<and> alpha q = 255 \<and> \<not> isReturning q
    \<and> (velX q)\<^sup>2 + (velY q)\<^sup>2 = (1 + 2 * rnd (5 * n + 1))\<^sup>2
    \<and> 1 \<le> 1 + 2 * rnd (5 * n + 1) \<and> 1 + 2 * rnd (5 * n + 1) \<le> 3
    \<and> velX q = - cos (pi / 4 + rnd (5 * n) * (pi / 4)) * (1 + 2 * rnd (5 * n + 1))
    \<and> velX q \<le> 0
    \<and> rotationSpeed q = rnd (5 * n + 2) / 10 - 0.05
    \<and> - 0.05 \<le> rotationSpeed q \<and> rotationSpeed q \<le> 0.05
    \<and> windX q = 0.15 * rnd (5 * n + 3) - 0.2
    \<and> - 0.2 \<le> windX q \<and> windX q \<le> - 0.05
    \<and> windY q = 0.05 + 0.15 * rnd (5 * n + 4)
    \<and> 0.05 \<le> windY q \<and> windY q \<le> 0.2"
    if c: "q = DandelionParticle X Y T col sz X Y A rnd (5 * n)" for X Y T col sz A
  proof -
    note vel = new_particle_velocity[OF c]
    note dr = new_particle_draws[OF c]
    have own: "originalX q = partX q \<and> originalY q = partY q
      \<and> targetX q = partX q \<and> targetY q = partY q \<and> alpha q = 255 \<and> \<not> isReturning q"
      by (simp add: c)
    have sp: "1 \<le> 1 + 2 * rnd (5 * n + 1) \<and> 1 + 2 * rnd (5 * n + 1) \<le> 3"
      using d[of "5 * n + 1"] by simp
    have left: "velX q \<le> 0"
      unfolding vel(1) using d[of "5 * n"] d(1)[of "5 * n + 1"] by (intro velocity_leftward)
    have rs: "- 0.05 \<le> rotationSpeed q \<and> rotationSpeed q \<le> 0.05"
      unfolding dr(1) using d[of "5 * n + 2"] by simp
    have wx: "- 0.2 \<le> windX q \<and> windX q \<le> - 0.05"
      unfolding dr(2) using d[of "5 * n + 3"] by simp
    have wy: "0.05 \<le> windY q \<and> windY q \<le> 0.2"
      unfolding dr(3) using d[of "5 * n + 4"] by simp
    show ?thesis using own vel sp left dr rs wx wy by blast
  qed
  show ?thesis
  proof (cases "?m < 24")
    case True
    then have c: "q = DandelionParticle
       (wheelX w + cos (2 * pi * real ?m / 24) * (radius w * 0.8))
       (wheelY w + sin (2 * pi * real ?m / 24) * (radius w * 0.8))
       ''spoke'' (colorAt (colors w) 3) (radius w * 0.03 * 5)
       (wheelX w + cos (2 * pi * real ?m / 24) * (radius w * 0.8))
       (wheelY w + sin (2 * pi * real ?m / 24) * (radius w * 0.8))
       (2 * pi * real ?m / 24) rnd (5 * n)"
      using qe by (simp add: spoke_particle_eq)
    have ring: "ptype q = ''spoke''
          \<and> partX q = wheelX w + cos (2 * pi * real ?m / 24) * (radius w * 0.8)
          \<and> partY q = wheelY w + sin (2 * pi * real ?m / 24) * (radius w * 0.8)
          \<and> rotation q = 2 * pi * real ?m / 24"
      by (simp add: c)
    have no: "\<not> 24 \<le> ?m" using True by simp
    show ?thesis using mem ring no True common[OF c] by blast
  next
    case False
    then have c: "q = DandelionParticle
       (wheelX w + cos (2 * pi * real (?m - 24) / 40) * (radius w * 0.9))
       (wheelY w + sin (2 * pi * real (?m - 24) / 40) * (radius w * 0.9))
       ''outerDot'' (colorAt (colors w) 1) (radius w * 0.08)
       (wheelX w + cos (2 * pi * real (?m - 24) / 40) * (radius w * 0.9))
       (wheelY w + sin (2 * pi * real (?m - 24) / 40) * (radius w * 0.9))
       0 rnd (5 * n)"
      using qe by (simp add: dot_particle_eq)
    have ring: "ptype q = ''outerDot''
          \<and> partX q = wheelX w + cos (2 * pi * real (?m - 24) / 40) * (radius w * 0.9)
          \<and> partY q = wheelY w + sin (2 * pi * real (?m - 24) / 40) * (radius w * 0.9)
          \<and> rotation q = 0"
      by (simp add: c)
    show ?thesis using mem ring False common[OF c] by blast
  qed
qed

text \<open>
  The single wheel clicked with draws that differ from call to call. The second spoke
  particle takes the draws 0.5, ..., 0.9: speed 2.2, rotation speed 0.02, wind (-0.08,
  0.185). The first spoke particle takes 0, ..., 0.4 and has another wind, -0.155. The
  first outer-dot particle, at position 24, sits at (290, 200).
\<close>

theorem spawned_particles_witness:
  "contains (wheels (initializeArtwork one_wheel) ! 0) 200 200
   \<and> ramp_draws 6 = 0.6 \<and> ramp_draws 3 = 0.3
   \<and> ptype (dandelionParticles ramp_clicked ! 1) = ''spoke''
   \<and> rotation (dandelionParticles ramp_clicked ! 1) = 2 * pi / 24
   \<and> targetX (dandelionParticles ramp_clicked ! 1) = partX (dandelionParticles ramp_clicked ! 1)
   \<and> targetY (dandelionParticles ramp_clicked ! 1) = partY (dandelionParticles ramp_clicked ! 1)
   \<and> (velX (dandelionParticles ramp_clicked ! 1))\<^sup>2
        + (velY (dandelionParticles ramp_clicked ! 1))\<^sup>2 = 4.84
   \<and> velX (dandelionParticles ramp_clicked ! 1) \<le> 0
   \<and> rotationSpeed (dandelionParticles ramp_clicked ! 1) = 0.02
   \<and> windX (dandelionParticles ramp_clicked ! 1) = - 0.08
   \<and> windY (dandelionParticles ramp_clicked ! 1) = 0.185
   \<and> windX (dandelionParticles ramp_clicked ! 0) = - 0.155
   \<and> ptype (dandelionParticles ramp_clicked ! 24) = ''outerDot''
   \<and> partX (dandelionParticles ramp_clicked ! 24) = 290
   \<and> partY (dandelionParticles ramp_clicked ! 24) = 200
   \<and> originalX (dandelionParticles ramp_clicked ! 24) = 290"
proof -
  let ?s = "initializeArtwork one_wheel"
  let ?W = "Wheel 200 200 100 (colorPalettes ! 0) 0"
  have aff: "[0] = wheelsToBlow (wheels ?s) (colorAt (colors (wheels ?s ! 0)) 0)"
    by (simp add: one_wheel_affected)
  have d: "\<forall>c. 0 \<le> ramp_draws c \<and> ramp_draws c < 1"
  proof
    fix c :: nat
    have "c mod 10 < 10" by simp
    then have "real (c mod 10) < 10" by linarith
    then show "0 \<le> ramp_draws c \<and> ramp_draws c < 1" by (simp add: ramp_draws_def)
  qed
  have q: "dandelionParticles ramp_clicked ! k =
      dandelionParticles (mousePressed ?s 200 200 ramp_draws) ! (length (dandelionParticles ?s) + k)"
    for k
    by (simp add: ramp_clicked_def initializeArtwork_def)
  have w0: "?W = wheels ?s ! ([0] ! (0 div 64))"
    and w1: "?W = wheels ?s ! ([0] ! (1 div 64))"
    and w24: "?W = wheels ?s ! ([0] ! (24 div 64))"
    by (simp_all add: one_wheel_wheels)
  have n0: "0 < length [0::nat] * 64" and n1: "1 < length [0::nat] * 64"
    and n24: "24 < length [0::nat] * 64"
    by simp_all
  note t0 = spawned_particles[OF one_wheel_hit aff d n0 q w0]
  note t1 = spawned_particles[OF one_wheel_hit aff d n1 q w1]
  note t24 = spawned_particles[OF one_wheel_hit aff d n24 q w24]
  have r6: "ramp_draws 6 = 0.6" and r3: "ramp_draws 3 = 0.3" by (simp_all add: ramp_draws_def)
  let ?q0 = "dandelionParticles ramp_clicked ! 0"
  let ?q1 = "dandelionParticles ramp_clicked ! 1"
  let ?q24 = "dandelionParticles ramp_clicked ! 24"
  have "1 mod 64 < (24::nat) \<longrightarrow>
          ptype ?q1 = ''spoke''
          \<and> partX ?q1 = wheelX ?W + cos (2 * pi * real (1 mod 64) / 24) * (radius ?W * 0.8)
          \<and> partY ?q1 = wheelY ?W + sin (2 * pi * real (1 mod 64) / 24) * (radius ?W * 0.8)
          \<and> rotation ?q1 = 2 * pi * real (1 mod 64) / 24"
    using t1 by blast
  then have a1: "ptype ?q1 = ''spoke'' \<and> rotation ?q1 = 2 * pi / 24" by simp
  have b1: "targetX ?q1 = partX ?q1 \<and> targetY ?q1 = partY ?q1 \<and> velX ?q1 \<le> 0"
    using t1 by blast
  have "(velX ?q1)\<^sup>2 + (velY ?q1)\<^sup>2 = (1 + 2 * ramp_draws (5 * 1 + 1))\<^sup>2"
    using t1 by blast
  then have c1: "(velX ?q1)\<^sup>2 + (velY ?q1)\<^sup>2 = 4.84"
    by (simp add: ramp_draws_def power2_eq_square)
  have "rotationSpeed ?q1 = ramp_draws (5 * 1 + 2) / 10 - 0.05
      \<and> windX ?q1 = 0.15 * ramp_draws (5 * 1 + 3) - 0.2
      \<and> windY ?q1 = 0.05 + 0.15 * ramp_draws (5 * 1 + 4)"
    using t1 by blast
  then have e1: "rotationSpeed ?q1 = 0.02 \<and> windX ?q1 = - 0.08 \<and> windY ?q1 = 0.185"
    by (simp add: ramp_draws_def)
  have "windX ?q0 = 0.15 * ramp_draws (5 * 0 + 3) - 0.2"
    using t0 by blast
  then have e0: "windX ?q0 = - 0.155"
    by (simp add: ramp_draws_def)
  have "24 \<le> (24::nat) mod 64 \<longrightarrow>
          ptype ?q24 = ''outerDot''
          \<and> partX ?q24 = wheelX ?W + cos (2 * pi * real (24 mod 64 - 24) / 40) * (radius ?W * 0.9)
          \<and> partY ?q24 = wheelY ?W + sin (2 * pi * real (24 mod 64 - 24) / 40) * (radius ?W * 0.9)
          \<and> rotation ?q24 = 0"
    using t24 by blast
  then have g24: "ptype ?q24 = ''outerDot'' \<and> partX ?q24 = 290 \<and> partY ?q24 = 200" by simp
  have "originalX ?q24 = partX ?q24" using t24 by blast
  then have f24: "ptype ?q24 = ''outerDot'' \<and> partX ?q24 = 290 \<and> partY ?q24 = 200
      \<and> originalX ?q24 = 290"
    using g24 by simp
  show ?thesis using one_wheel_hit(2) r6 r3 a1 b1 c1 e1 e0 f24 by blast
qed

section \<open>Which particles a restoration calls back (claims C7, C8)\<close>

text \<open>
  Claim C7 against the code. The single wheel of radius 100 at (200, 200) is clicked at its
  centre, with draws that give its first spoke particle the rotation speed \<open>pi / 128\<close>, and
  64 frames pass. That particle's target is still (280, 200), exactly the first position
  of the spoke ring where the dispersal placed it, but \<open>update\<close> has advanced its
  \<open>rotation\<close> from 0 to \<open>pi / 2\<close>. The restore key restores the wheel, and \<open>keyPressed\<close>
  recomputes the ring position from the current \<open>rotation\<close>: it compares the target with
  (200, 280), finds it more than 10 away and leaves the particle as it is, not returning.
  The first outer-dot particle of the same wheel (index 24) is called back.
\<close>

theorem restoration_misses_drifted_spoke:
  "0 \<le> drift_draws 2 \<and> drift_draws 2 < 1
   \<and> blownAwayHistory drifted_scene = [[0]]
   \<and> wheelX (wheels drifted_scene ! 0) = 200
   \<and> wheelY (wheels drifted_scene ! 0) = 200
   \<and> radius (wheels drifted_scene ! 0) = 100
   \<and> ptype (dandelionParticles drifted_scene ! 0) = ''spoke''
   \<and> targetX (dandelionParticles drifted_scene ! 0) = 280
   \<and> targetY (dandelionParticles drifted_scene ! 0) = 200
   \<and> p5_dist (targetX (dandelionParticles drifted_scene ! 0))
        (targetY (dandelionParticles drifted_scene ! 0))
        (wheelX (wheels drifted_scene ! 0)
           + cos (p5_map 0 0 (real spokeCount) 0 TWO_PI) * (radius (wheels drifted_scene ! 0) * 0.8))
        (wheelY (wheels drifted_scene ! 0)
           + sin (p5_map 0 0 (real spokeCount) 0 TWO_PI) * (radius (wheels drifted_scene ! 0) * 0.8))
       = 0
   \<and> rotation (dandelionParticles drifted_scene ! 0) = pi / 2
   \<and> alpha (dandelionParticles drifted_scene ! 0) = 127
   \<and> blownAwayHistory (keyPressed drifted_scene 32) = []
   \<and> \<not> isBlownAway (wheels (keyPressed drifted_scene 32) ! 0)
   \<and> \<not> isReturning (dandelionParticles (keyPressed drifted_scene 32) ! 0)
   \<and> dandelionParticles (keyPressed drifted_scene 32) ! 0 = dandelionParticles drifted_scene ! 0
   \<and> ptype (dandelionParticles drifted_scene ! 24) = ''outerDot''
   \<and> isReturning (dandelionParticles (keyPressed drifted_scene 32) ! 24)"
proof -
  let ?W = "blowAway (Wheel 200 200 100 (colorPalettes ! 0) 0)"
  let ?w = "(updateAlpha ^^ 64) ?W"
  let ?ps = "spoke_particles ?W drift_draws 0 @ dot_particles ?W drift_draws 120"
  let ?p = "(update ^^ 64) (spoke_particle ?W drift_draws 0 0)"
  let ?d = "(update ^^ 64) (dot_particle ?W drift_draws 120 0)"
  have n: "2 * real (64::nat) < 255" by simp
  have h: "blownAwayHistory drifted_scene = [[0]]"
    and w: "wheels drifted_scene = [?w]"
    and ps: "dandelionParticles drifted_scene = map (update ^^ 64) ?ps"
    unfolding drifted_scene_def by (rule one_wheel_drift[OF n])+
  have len: "length ?ps = 64" by (simp add: spokeCount_def dotCount_def)
  have p0: "dandelionParticles drifted_scene ! 0 = ?p"
    unfolding drifted_scene_def by (rule one_wheel_drift_first[OF n])
  have l24: "24 < length ?ps" and l0: "0 < length ?ps"
    by (simp_all add: spokeCount_def dotCount_def)
  have "?ps ! 24 = dot_particles ?W drift_draws 120 ! 0"
    by (simp add: nth_append spokeCount_def)
  then have e24: "?ps ! 24 = dot_particle ?W drift_draws 120 0"
    using dot_particles_nth[of 0 ?W drift_draws 120] by (simp add: dotCount_def)
  have p24: "dandelionParticles drifted_scene ! 24 = ?d"
    unfolding ps nth_map[OF l24] e24 ..
  have dr: "0 \<le> drift_draws 2 \<and> drift_draws 2 < 1"
  proof -
    have "5 * pi / 64 < 5 * 4 / 64" using pi_less_4 by simp
    then show ?thesis using pi_gt_zero by (simp add: drift_draws_def)
  qed
  have "p5_random (1 / 2 + 5 * pi / 64) (- 0.05) 0.05 = pi / 128"
    unfolding p5_random_def by (simp add: field_simps)
  then have rs: "rotationSpeed (spoke_particle v drift_draws 0 0) = pi / 128" for v
    by (simp add: first_spoke_fields drift_draws_def)
  have nr: "\<not> isReturning (spoke_particle ?W drift_draws 0 0)"
    by (simp add: first_spoke_fields)
  have rot: "rotation ?p = pi / 2"
    using funpow_update_drift[OF nr, of 64] by (simp add: first_spoke_fields(6) rs)
  have al: "alpha ?p = 127"
    using funpow_update_drift[OF nr, of 64] by (simp add: first_spoke_fields)
  have ty: "ptype ?p = ''spoke''" and tx: "targetX ?p = 280" and ty': "targetY ?p = 200"
    by (simp_all add: first_spoke_fields)
  have ring: "p5_dist (targetX ?p) (targetY ?p)
        (wheelX ?w + cos (p5_map 0 0 (real spokeCount) 0 TWO_PI) * (radius ?w * 0.8))
        (wheelY ?w + sin (p5_map 0 0 (real spokeCount) 0 TWO_PI) * (radius ?w * 0.8)) = 0"
    unfolding tx ty' by (simp add: p5_map_def p5_dist_def)
  have nm: "\<not> particleMatches (restoreWheel ?w) ?p"
    unfolding particleMatches_spoke[OF ty] tx ty' rot by (simp add: p5_dist_less_iff)
  have dty: "ptype ?d = ''outerDot''" and dtx: "targetX ?d = 290" and dty': "targetY ?d = 200"
    by (simp_all add: first_dot_fields)
  have dm: "particleMatches (restoreWheel ?w) ?d"
    unfolding particleMatches_outerDot[OF dty] dtx dty'
    by (simp add: atan2_def p5_dist_less_iff)
  note kp = keyPressed_single[OF h w]
  have m24: "24 < length (dandelionParticles drifted_scene)"
    and m0: "0 < length (dandelionParticles drifted_scene)"
    unfolding ps by (simp_all add: spokeCount_def dotCount_def)
  have k0: "dandelionParticles (keyPressed drifted_scene 32) ! 0 = ?p"
    unfolding kp(1) nth_map[OF m0] p0 using nm by simp
  have k24: "dandelionParticles (keyPressed drifted_scene 32) ! 24 = startReturn ?d"
    unfolding kp(1) nth_map[OF m24] p24 using dm by simp
  have nr': "\<not> isReturning ?p" using nr by simp
  show ?thesis
    unfolding k0 k24 p0 p24 kp(2) kp(3) w h
    using dr ring rot al ty tx ty' nr' dty by simp
qed

text \<open>
  Claim C8. A particle is constructed with \<open>isReturning = false\<close>. \<open>update\<close> never changes
  the flag; every particle left by a frame is the update of an earlier particle, with the
  same flag; a click keeps the earlier particles as they are and appends particles that
  are not returning; a resize leaves no particle at all. A key press keeps the number
  and order of the particles and leaves each either unchanged or with the flag set and
  its current position stored as the new origin, so a particle that is returning stays
  returning: only \<open>keyPressed\<close> sets the flag and nothing clears it.
\<close>

theorem returning_only_set_by_restoration:
  "\<not> isReturning (DandelionParticle x y ty col sz tx ty' a rnd c)
   \<and> isReturning (update p) = isReturning p
   \<and> (\<forall>q \<in> set (dandelionParticles (draw s)).
         \<exists>p' \<in> set (dandelionParticles s). q = update p' \<and> isReturning q = isReturning p')
   \<and> take (length (dandelionParticles s)) (dandelionParticles (mousePressed s mouseX mouseY rnd))
       = dandelionParticles s
   \<and> (\<forall>q \<in> set (drop (length (dandelionParticles s))
                    (dandelionParticles (mousePressed s mouseX mouseY rnd))).
         \<not> isReturning q)
   \<and> dandelionParticles (windowResized placed) = []
   \<and> length (dandelionParticles (keyPressed s keyCode)) = length (dandelionParticles s)
   \<and> (\<forall>i<length (dandelionParticles s).
         (dandelionParticles (keyPressed s keyCode) ! i = dandelionParticles s ! i
          \<or> dandelionParticles (keyPressed s keyCode) ! i
              = (dandelionParticles s ! i)
                  \<lparr>isReturning := True,
                   originalX := partX (dandelionParticles s ! i),
                   originalY := partY (dandelionParticles s ! i)\<rparr>)
         \<and> (isReturning (dandelionParticles s ! i)
              \<longrightarrow> isReturning (dandelionParticles (keyPressed s keyCode) ! i)))"
proof -
  have 1: "\<not> isReturning (DandelionParticle x y ty col sz tx ty' a rnd c)" by simp
  have 2: "isReturning (update p) = isReturning p" by simp
  have 3: "\<forall>q \<in> set (dandelionParticles (draw s)).
         \<exists>p' \<in> set (dandelionParticles s). q = update p' \<and> isReturning q = isReturning p'"
    by (auto simp add: draw_particles)
  have 4: "take (length (dandelionParticles s))
        (dandelionParticles (mousePressed s mouseX mouseY rnd)) = dandelionParticles s"
    by (rule mousePressed_particles_prefix)
  have "list_all (\<lambda>q. \<not> isReturning q) (drop (length (dandelionParticles s))
           (dandelionParticles (mousePressed s mouseX mouseY rnd)))"
    by (rule mousePressed_particles_new) (simp_all add: spawned_fresh)
  then have 5: "\<forall>q \<in> set (drop (length (dandelionParticles s))
                    (dandelionParticles (mousePressed s mouseX mouseY rnd))). \<not> isReturning q"
    by (simp add: list_all_iff)
  have 6: "dandelionParticles (windowResized placed) = []"
    by (simp add: windowResized_def initializeArtwork_def)
  have 7: "length (dandelionParticles (keyPressed s keyCode)) = length (dandelionParticles s)"
    by (rule keyPressed_particles_length)
  have 8: "\<forall>i<length (dandelionParticles s).
         (dandelionParticles (keyPressed s keyCode) ! i = dandelionParticles s ! i
          \<or> dandelionParticles (keyPressed s keyCode) ! i
              = (dandelionParticles s ! i)
                  \<lparr>isReturning := True,
                   originalX := partX (dandelionParticles s ! i),
                   originalY := partY (dandelionParticles s ! i)\<rparr>)
         \<and> (isReturning (dandelionParticles s ! i)
              \<longrightarrow> isReturning (dandelionParticles (keyPressed s keyCode) ! i))"
  proof (intro allI impI)
    fix i assume i: "i < length (dandelionParticles s)"
    from keyPressed_particles_nth[OF i, of keyCode]
    show "(dandelionParticles (keyPressed s keyCode) ! i = dandelionParticles s ! i
          \<or> dandelionParticles (keyPressed s keyCode) ! i
              = (dandelionParticles s ! i)
                  \<lparr>isReturning := True,
                   originalX := partX (dandelionParticles s ! i),
                   originalY := partY (dandelionParticles s ! i)\<rparr>)
         \<and> (isReturning (dandelionParticles s ! i)
              \<longrightarrow> isReturning (dandelionParticles (keyPressed s keyCode) ! i))"
      by (auto simp add: startReturn_def)
  qed
  show ?thesis using 1 2 3 4 5 6 7 8 by blast
qed

text \<open>
  The first particle of the single wheel: not returning after the click, returning after
  the restore key, and still returning after an update and after a second restore key.
\<close>

theorem returning_only_set_by_restoration_witness:
  "dandelionParticles one_clicked ! 0
       \<in> set (drop (length (dandelionParticles (initializeArtwork one_wheel)))
                (dandelionParticles (mousePressed (initializeArtwork one_wheel) 200 200 zero_draws)))
   \<and> \<not> isReturning (dandelionParticles one_clicked ! 0)
   \<and> 0 < length (dandelionParticles (keyPressed one_clicked 32))
   \<and> isReturning (dandelionParticles (keyPressed one_clicked 32) ! 0)
   \<and> isReturning (update (dandelionParticles (keyPressed one_clicked 32) ! 0))
   \<and> isReturning (dandelionParticles (keyPressed (keyPressed one_clicked 32) 32) ! 0)"
proof -
  let ?s0 = "initializeArtwork one_wheel"
  let ?s1 = "keyPressed one_clicked 32"
  let ?p = "dandelionParticles one_clicked ! 0"
  have "dandelionParticles ?s0 = []" by (simp add: initializeArtwork_def)
  then have m: "?p \<in> set (drop (length (dandelionParticles ?s0))
      (dandelionParticles (mousePressed ?s0 200 200 zero_draws)))"
    unfolding one_clicked_def[symmetric] using one_clicked_first(1) by simp
  have "\<forall>q \<in> set (drop (length (dandelionParticles ?s0))
      (dandelionParticles (mousePressed ?s0 200 200 zero_draws))). \<not> isReturning q"
    using returning_only_set_by_restoration[where s = ?s0 and mouseX = 200 and mouseY = 200
        and rnd = zero_draws]
    by blast
  then have a: "\<not> isReturning ?p" using m by blast
  have l: "0 < length (dandelionParticles ?s1)"
    using one_clicked_first(1) by (simp add: keyPressed_particles_length)
  have b: "isReturning (dandelionParticles ?s1 ! 0)" by (simp add: one_clicked_restored_first)
  have "isReturning (update (dandelionParticles ?s1 ! 0)) = isReturning (dandelionParticles ?s1 ! 0)"
    using returning_only_set_by_restoration[where p = "dandelionParticles ?s1 ! 0"] by blast
  then have c: "isReturning (update (dandelionParticles ?s1 ! 0))" using b by simp
  have "\<forall>i<length (dandelionParticles ?s1).
      isReturning (dandelionParticles ?s1 ! i)
        \<longrightarrow> isReturning (dandelionParticles (keyPressed ?s1 32) ! i)"
    using returning_only_set_by_restoration[where s = ?s1 and keyCode = 32] by blast
  then have d: "isReturning (dandelionParticles (keyPressed ?s1 32) ! 0)" using l b by blast
  show ?thesis using m a l b c d by blast
qed

end
